theory Spec2Isabelle
  imports Main "HOL-Library.Multiset"
begin

section \<open>Values of a request\<close>

text \<open>
  A request body is parsed JSON, so a field of it is any JSON value, or \<open>undefined\<close>
  when the key is absent. Numbers are kept as integers: the handlers only ask whether a
  number is zero. Strings are lists of code units below 256.
\<close>

datatype json =
    JUndefined
  | JNull
  | JBool bool
  | JNum int
  | JStr string
  | JArr "json list"
  | JObj "(string \<times> json) list"

text \<open>JavaScript's truthiness, as \<open>!x\<close>, \<open>x && y\<close>, \<open>x || y\<close> and \<open>x ? a : b\<close> read it.\<close>

fun truthy :: "json \<Rightarrow> bool" where
  "truthy JUndefined = False"
| "truthy JNull = False"
| "truthy (JBool b) = b"
| "truthy (JNum n) = (n \<noteq> 0)"
| "truthy (JStr s) = (s \<noteq> [])"
| "truthy (JArr xs) = True"
| "truthy (JObj kvs) = True"

text \<open>
  \<open>String.prototype.trim\<close> removes white space and line terminators from both ends.
  Below 256 these are TAB, LF, VT, FF, CR, SPACE and NO-BREAK SPACE.
\<close>

definition isSpace :: "char \<Rightarrow> bool" where
  "isSpace c = (c \<in> set [CHR 0x09, CHR 0x0A, CHR 0x0B, CHR 0x0C, CHR 0x0D, CHR 0x20, CHR 0xA0])"

definition trim :: "string \<Rightarrow> string" where
  "trim s = rev (dropWhile isSpace (rev (dropWhile isSpace s)))"

text \<open>
  The failures of the task store. In the source they are HTTP responses:
  400 "Title is required and cannot be empty" is \<open>MissingField ''title''\<close>;
  400 "Priority must be ..." and "Status must be ..." are \<open>InvalidEnum\<close>;
  400 "Validation Error" with its details (a Mongoose ValidationError) is \<open>SchemaViolation\<close>;
  404 "Task not found" is \<open>NotFound\<close>;
  400 "Invalid ID format" (a Mongoose CastError) is \<open>InvalidIdentifier\<close>;
  500 "Internal Server Error" (any other exception, a TypeError among them) is
  \<open>InternalError\<close>.
\<close>

datatype error =
    MissingField string
  | InvalidEnum string
  | SchemaViolation "string list"
  | NotFound
  | InvalidIdentifier
  | InternalError

text \<open>\<open>x.trim()\<close>: only a string has the method; on anything else the call throws a TypeError.\<close>

definition jsTrim :: "json \<Rightarrow> error + string" where
  "jsTrim j = (case j of JStr s \<Rightarrow> Inr (trim s) | _ \<Rightarrow> Inl InternalError)"

text \<open>\<open>[...].includes(x)\<close> on an array of string literals.\<close>

definition includes_str :: "string list \<Rightarrow> json \<Rightarrow> bool" where
  "includes_str xs j = (case j of JStr s \<Rightarrow> s \<in> set xs | _ \<Rightarrow> False)"

text \<open>\<open>x || 'literal'\<close>.\<close>

definition orElse :: "json \<Rightarrow> string \<Rightarrow> json" where
  "orElse j d = (if truthy j then j else JStr d)"

definition priorities :: "string list" where
  "priorities = [''low'', ''medium'', ''high'']"

definition statuses :: "string list" where
  "statuses = [''pending'', ''in-progress'', ''completed'']"

section \<open>The validation middleware\<close>

text \<open>The fields of \<open>req.body\<close> that the handlers read.\<close>

record body =
  req_title :: json
  req_description :: json
  req_priority :: json
  req_status :: json

text \<open>
  \<open>validateTask\<close>: \<open>None\<close> is the call of \<open>next()\<close>, \<open>Some e\<close> the response sent
  instead. A truthy title that is not a string makes \<open>title.trim()\<close> throw, which Express
  answers with the default error response.
\<close>

definition validateTask :: "body \<Rightarrow> error option" where
  "validateTask b =
     (if \<not> truthy (req_title b) then Some (MissingField ''title'')
      else case jsTrim (req_title b) of
        Inl e \<Rightarrow> Some e
      | Inr t \<Rightarrow>
          if length t = 0 then Some (MissingField ''title'')
          else if truthy (req_priority b) \<and> \<not> includes_str priorities (req_priority b)
            then Some (InvalidEnum ''priority'')
          else if truthy (req_status b) \<and> \<not> includes_str statuses (req_status b)
            then Some (InvalidEnum ''status'')
          else None)"

section \<open>The task model\<close>

record task =
  task_id :: nat
  title :: string
  description :: string
  priority :: string
  status :: string
  createdAt :: int
  updatedAt :: int

text \<open>
  The validators of \<open>taskSchema\<close>, run on the values after the schema's \<open>trim\<close> setters:
  the names of the paths that fail (nothing below rests on the order of the names). A
  value that is not a string is cast to one that no enumeration holds.
\<close>

definition schemaErrors :: "string \<Rightarrow> string \<Rightarrow> json \<Rightarrow> json \<Rightarrow> string list" where
  "schemaErrors t d p s =
     (if t = [] \<or> 200 < length t then [''title''] else []) @
     (if 1000 < length d then [''description''] else []) @
     (if includes_str priorities p then [] else [''priority'']) @
     (if includes_str statuses s then [] else [''status''])"

text \<open>The string a path holds once its enumeration validator has accepted the value.\<close>

fun strOf :: "json \<Rightarrow> string" where
  "strOf (JStr s) = s"
| "strOf _ = []"

text \<open>
  The object both write handlers build from the body:
  \<open>title.trim()\<close>, \<open>description ? description.trim() : ''\<close>,
  \<open>priority || 'medium'\<close>, \<open>status || 'pending'\<close>.
\<close>

definition taskData :: "body \<Rightarrow> error + (string \<times> string \<times> json \<times> json)" where
  "taskData b =
     (case jsTrim (req_title b) of
        Inl e \<Rightarrow> Inl e
      | Inr t \<Rightarrow>
          (case (if truthy (req_description b) then jsTrim (req_description b) else Inr [])
           of Inl e \<Rightarrow> Inl e
            | Inr d \<Rightarrow>
                Inr (t, d, orElse (req_priority b) ''medium'', orElse (req_status b) ''pending'')))"

section \<open>The collection\<close>

text \<open>
  The collection is the list of its documents in insertion order. \<open>_id\<close> is an ObjectId,
  here a natural number; the driver's cast of a request's id string to an ObjectId is a
  parameter \<open>cast\<close> of the operations that take an id (\<open>None\<close> is a CastError).
\<close>

definition findById :: "nat \<Rightarrow> task list \<Rightarrow> task option" where
  "findById oid s = find (\<lambda>t. task_id t = oid) s"

primrec updateFirst :: "nat \<Rightarrow> (task \<Rightarrow> task) \<Rightarrow> task list \<Rightarrow> task list" where
  "updateFirst oid f [] = []"
| "updateFirst oid f (t # ts) =
     (if task_id t = oid then f t # ts else t # updateFirst oid f ts)"

primrec deleteFirst :: "nat \<Rightarrow> task list \<Rightarrow> task list" where
  "deleteFirst oid [] = []"
| "deleteFirst oid (t # ts) = (if task_id t = oid then ts else t # deleteFirst oid ts)"

section \<open>The write handlers\<close>

text \<open>
  POST /api/tasks. \<open>oid\<close> is the ObjectId the driver generates for the new document;
  \<open>tc\<close> and \<open>tu\<close> are the readings of \<open>Date.now\<close> taken by the defaults of
  \<open>createdAt\<close> and \<open>updatedAt\<close> when \<open>new Task(...)\<close> builds the document, and \<open>ts\<close>
  the reading taken by the \<open>pre('save')\<close> hook. The result is the response and the
  collection after the call. An \<open>_id\<close> already in the collection is a duplicate key
  error of the store.
\<close>

definition createTask ::
  "nat \<Rightarrow> int \<Rightarrow> int \<Rightarrow> int \<Rightarrow> body \<Rightarrow> task list \<Rightarrow> (error + task) \<times> task list" where
  "createTask oid tc tu ts b s =
     (case validateTask b of
        Some e \<Rightarrow> (Inl e, s)
      | None \<Rightarrow>
          (case taskData b of
             Inl e \<Rightarrow> (Inl e, s)
           | Inr (t, d, p, st) \<Rightarrow>
               let doc = \<lparr>task_id = oid, title = trim t, description = trim d,
                          priority = strOf p, status = strOf st,
                          createdAt = tc, updatedAt = tu\<rparr>;
                   errs = schemaErrors (trim t) (trim d) p st
               in if errs \<noteq> [] then (Inl (SchemaViolation errs), s)
                  else let saved = doc\<lparr>updatedAt := ts\<rparr>
                       in if oid \<in> set (map task_id s) then (Inl InternalError, s)
                          else (Inr saved, s @ [saved])))"

text \<open>
  PUT /api/tasks/:id. \<open>now\<close> is the reading of \<open>Date.now\<close> taken by the
  \<open>pre('findOneAndUpdate')\<close> hook. \<open>findByIdAndUpdate\<close> casts the id, runs the update
  validators (\<open>runValidators\<close>), and answers \<open>null\<close> when no document has the id;
  with \<open>new: true\<close> it returns the document after the update.
\<close>

definition updateTask ::
  "(string \<Rightarrow> nat option) \<Rightarrow> int \<Rightarrow> string \<Rightarrow> body \<Rightarrow> task list \<Rightarrow> (error + task) \<times> task list" where
  "updateTask cast now idstr b s =
     (case validateTask b of
        Some e \<Rightarrow> (Inl e, s)
      | None \<Rightarrow>
          (case taskData b of
             Inl e \<Rightarrow> (Inl e, s)
           | Inr (t, d, p, st) \<Rightarrow>
               (case cast idstr of
                  None \<Rightarrow> (Inl InvalidIdentifier, s)
                | Some oid \<Rightarrow>
                    let errs = schemaErrors (trim t) (trim d) p st;
                        upd = (\<lambda>doc. doc\<lparr>title := trim t, description := trim d,
                                           priority := strOf p, status := strOf st,
                                           updatedAt := now\<rparr>)
                    in if errs \<noteq> [] then (Inl (SchemaViolation errs), s)
                       else (case findById oid s of
                               None \<Rightarrow> (Inl NotFound, s)
                             | Some doc \<Rightarrow> (Inr (upd doc), updateFirst oid upd s)))))"

section \<open>The read handlers\<close>

text \<open>GET /api/tasks/:id.\<close>

definition getTask :: "(string \<Rightarrow> nat option) \<Rightarrow> string \<Rightarrow> task list \<Rightarrow> error + task" where
  "getTask cast idstr s =
     (case cast idstr of
        None \<Rightarrow> Inl InvalidIdentifier
      | Some oid \<Rightarrow> (case findById oid s of None \<Rightarrow> Inl NotFound | Some doc \<Rightarrow> Inr doc))"

text \<open>DELETE /api/tasks/:id: \<open>findByIdAndDelete\<close> removes the document and returns it.\<close>

definition deleteTask ::
  "(string \<Rightarrow> nat option) \<Rightarrow> string \<Rightarrow> task list \<Rightarrow> (error + task) \<times> task list" where
  "deleteTask cast idstr s =
     (case cast idstr of
        None \<Rightarrow> (Inl InvalidIdentifier, s)
      | Some oid \<Rightarrow>
          (case findById oid s of
             None \<Rightarrow> (Inl NotFound, s)
           | Some doc \<Rightarrow> (Inr doc, deleteFirst oid s)))"

text \<open>
  GET /api/tasks. The fields of \<open>req.query\<close> that the handler reads; each parameter is
  given at most once in the query string, so each is a string or absent.
\<close>

record query =
  q_status :: "string option"
  q_priority :: "string option"
  q_sortBy :: "string option"
  q_order :: "string option"

text \<open>\<open>if (v && v !== 'all') filter.k = v\<close>: the value the filter object holds for a key, if any.\<close>

definition filterValue :: "string option \<Rightarrow> string option" where
  "filterValue v =
     (case v of None \<Rightarrow> None | Some x \<Rightarrow> if x \<noteq> [] \<and> x \<noteq> ''all'' then Some x else None)"

definition matches :: "string option \<Rightarrow> string option \<Rightarrow> task \<Rightarrow> bool" where
  "matches fs fp doc =
     ((case fs of None \<Rightarrow> True | Some v \<Rightarrow> status doc = v) \<and>
      (case fp of None \<Rightarrow> True | Some v \<Rightarrow> priority doc = v))"

text \<open>\<open>sortBy = 'createdAt'\<close> and \<open>order = 'desc'\<close> are the defaults of absent parameters.\<close>

definition sortField :: "string option \<Rightarrow> string" where
  "sortField v = (case v of None \<Rightarrow> ''createdAt'' | Some f \<Rightarrow> f)"

definition sortDirection :: "string option \<Rightarrow> int" where
  "sortDirection v = (if (case v of None \<Rightarrow> ''desc'' | Some x \<Rightarrow> x) = ''asc'' then 1 else - 1)"

text \<open>
  \<open>Task.find(filter).sort(sort)\<close>: the store orders the documents the filter selects.
  Its ordering is the parameter \<open>srt\<close>, given the field name, the direction and the
  selected documents; it may refuse a field name.
\<close>

definition listTasks ::
  "(string \<Rightarrow> int \<Rightarrow> task list \<Rightarrow> error + task list) \<Rightarrow> query \<Rightarrow> task list
     \<Rightarrow> error + (task list \<times> nat)" where
  "listTasks srt q s =
     (let docs = filter (matches (filterValue (q_status q)) (filterValue (q_priority q))) s
      in case srt (sortField (q_sortBy q)) (sortDirection (q_order q)) docs of
           Inl e \<Rightarrow> Inl e
         | Inr tasks \<Rightarrow> Inr (tasks, length tasks))"

section \<open>Statistics\<close>

text \<open>The \<open>data\<close> object of the response: \<open>total\<close>, \<open>completed\<close>, \<open>pending\<close>, \<open>inProgress\<close>, \<open>priority\<close>.\<close>

record stats =
  st_total :: nat
  st_completed :: nat
  st_pending :: nat
  st_inProgress :: nat
  st_priority :: "(string \<times> nat) list"

definition countDocuments :: "(task \<Rightarrow> bool) \<Rightarrow> task list \<Rightarrow> nat" where
  "countDocuments p s = length (filter p s)"

text \<open>
  The aggregation \<open>$group: {_id: '$priority', count: {$sum: 1}}\<close>: one item per distinct
  value, with the number of documents that hold it.
\<close>

fun groupStep :: "(string \<times> nat) list \<Rightarrow> string \<Rightarrow> (string \<times> nat) list" where
  "groupStep [] k = [(k, 1)]"
| "groupStep ((k', c) # g) k = (if k' = k then (k', c + 1) # g else (k', c) # groupStep g k)"

definition groupCount :: "string list \<Rightarrow> (string \<times> nat) list" where
  "groupCount ks = foldl groupStep [] ks"

text \<open>
  \<open>acc[k] = v\<close> on a plain object, kept as the list of its own properties. An assignment
  to \<open>__proto__\<close> with a number creates no property.
\<close>

fun assign :: "(string \<times> nat) list \<Rightarrow> string \<Rightarrow> nat \<Rightarrow> (string \<times> nat) list" where
  "assign [] k v = [(k, v)]"
| "assign ((k', c) # acc) k v = (if k' = k then (k', v) # acc else (k', c) # assign acc k v)"

definition jsSet :: "(string \<times> nat) list \<Rightarrow> string \<Rightarrow> nat \<Rightarrow> (string \<times> nat) list" where
  "jsSet acc k v = (if k = ''__proto__'' then acc else assign acc k v)"

definition reducePriority :: "(string \<times> nat) list \<Rightarrow> (string \<times> nat) list" where
  "reducePriority items = foldl (\<lambda>acc item. jsSet acc (fst item) (snd item)) [] items"

text \<open>GET /api/stats.\<close>

definition getStats :: "task list \<Rightarrow> stats" where
  "getStats s =
     \<lparr>st_total = countDocuments (\<lambda>doc. True) s,
      st_completed = countDocuments (\<lambda>doc. status doc = ''completed'') s,
      st_pending = countDocuments (\<lambda>doc. status doc = ''pending'') s,
      st_inProgress = countDocuments (\<lambda>doc. status doc = ''in-progress'') s,
      st_priority = reducePriority (groupCount (map priority s))\<rparr>"

section \<open>Instances of the store's parameters\<close>

text \<open>
  An ObjectId written as 24 hexadecimal digits, read as a number: an instance of the
  driver's cast on id strings of that form and on strings of other lengths than 12 (the
  driver also reads a string of 12 bytes as an ObjectId).
\<close>

definition hexDigit :: "char \<Rightarrow> nat option" where
  "hexDigit c =
     (let n = (of_char c :: nat)
      in if 48 \<le> n \<and> n \<le> 57 then Some (n - 48)
         else if 97 \<le> n \<and> n \<le> 102 then Some (n - 87)
         else if 65 \<le> n \<and> n \<le> 70 then Some (n - 55)
         else None)"

fun hexValue :: "nat \<Rightarrow> string \<Rightarrow> nat option" where
  "hexValue acc [] = Some acc"
| "hexValue acc (c # cs) =
     (case hexDigit c of None \<Rightarrow> None | Some d \<Rightarrow> hexValue (16 * acc + d) cs)"

definition hexCast :: "string \<Rightarrow> nat option" where
  "hexCast s = (if length s = 24 then hexValue 0 s else None)"

text \<open>
  An ordering of the documents by one of the schema's paths, an instance of the store's
  ordering: strings by their code units, dates and ids by their numbers; a name that is
  no path of the schema gives every document the same key, and the empty name is
  refused. Equal keys keep their order.
\<close>

datatype sortKey = KNull | KStr string | KNum int

definition fieldKey :: "string \<Rightarrow> task \<Rightarrow> sortKey" where
  "fieldKey f doc =
     (if f = ''_id'' then KNum (int (task_id doc))
      else if f = ''title'' then KStr (title doc)
      else if f = ''description'' then KStr (description doc)
      else if f = ''priority'' then KStr (priority doc)
      else if f = ''status'' then KStr (status doc)
      else if f = ''createdAt'' then KNum (createdAt doc)
      else if f = ''updatedAt'' then KNum (updatedAt doc)
      else KNull)"

fun strLe :: "string \<Rightarrow> string \<Rightarrow> bool" where
  "strLe [] ys = True"
| "strLe (x # xs) [] = False"
| "strLe (x # xs) (y # ys) =
     ((of_char x :: nat) < of_char y \<or> (x = y \<and> strLe xs ys))"

fun keyLe :: "sortKey \<Rightarrow> sortKey \<Rightarrow> bool" where
  "keyLe (KStr a) (KStr b) = strLe a b"
| "keyLe (KNum a) (KNum b) = (a \<le> b)"
| "keyLe KNull k = True"
| "keyLe k KNull = False"
| "keyLe (KNum a) (KStr b) = True"
| "keyLe (KStr a) (KNum b) = False"

fun insertBy :: "(task \<Rightarrow> task \<Rightarrow> bool) \<Rightarrow> task \<Rightarrow> task list \<Rightarrow> task list" where
  "insertBy le x [] = [x]"
| "insertBy le x (y # ys) = (if le x y then x # y # ys else y # insertBy le x ys)"

definition sortDocs :: "(task \<Rightarrow> task \<Rightarrow> bool) \<Rightarrow> task list \<Rightarrow> task list" where
  "sortDocs le xs = foldr (insertBy le) xs []"

definition fieldSort :: "string \<Rightarrow> int \<Rightarrow> task list \<Rightarrow> error + task list" where
  "fieldSort f dir docs =
     (if f = [] then Inl InternalError
      else Inr (if dir = 1 then sortDocs (\<lambda>a b. keyLe (fieldKey f a) (fieldKey f b)) docs
                else sortDocs (\<lambda>a b. keyLe (fieldKey f b) (fieldKey f a)) docs))"

section \<open>Payloads the write handlers accept\<close>

text \<open>
  A valid payload: the title is a string whose trimmed form is non-empty and at most 200
  long; the description is absent (or falsy) or a string whose trimmed form is at most
  1000 long; priority and status are absent (or falsy) or values of their enumerations.
\<close>

definition validPayload :: "body \<Rightarrow> bool" where
  "validPayload b =
     ((case req_title b of
         JStr t \<Rightarrow> trim t \<noteq> [] \<and> length (trim t) \<le> 200
       | _ \<Rightarrow> False) \<and>
      (if truthy (req_description b)
       then (case req_description b of JStr d \<Rightarrow> length (trim d) \<le> 1000 | _ \<Rightarrow> False)
       else True) \<and>
      (if truthy (req_priority b) then includes_str priorities (req_priority b) else True) \<and>
      (if truthy (req_status b) then includes_str statuses (req_status b) else True))"

section \<open>Trimming\<close>

lemma trim_Nil: "trim [] = []"
  by (simp add: trim_def)

lemma trim_ends:
  assumes "trim s \<noteq> []"
  shows "\<not> isSpace (hd (trim s)) \<and> \<not> isSpace (last (trim s))"
proof -
  define a where "a = dropWhile isSpace s"
  define b where "b = dropWhile isSpace (rev a)"
  have ts: "trim s = rev b" by (simp add: trim_def a_def b_def)
  with assms have bne: "b \<noteq> []" by simp
  then have hb: "\<not> isSpace (hd b)" unfolding b_def by (rule hd_dropWhile)
  from bne have ane: "a \<noteq> []" by (auto simp: b_def)
  then have ha: "\<not> isSpace (hd a)" unfolding a_def by (rule hd_dropWhile)
  from ane have "hd a \<in> set (rev a)" by simp
  then have "last b = last (rev a)" unfolding b_def using ha by (rule dropWhile_last)
  with ane have lb: "last b = hd a" by (simp add: last_rev)
  from bne have "hd (rev b) = last b" "last (rev b) = hd b"
    by (simp_all add: hd_rev last_rev)
  with ts ha hb lb show ?thesis by simp
qed

lemma dropWhile_trim: "dropWhile isSpace (trim s) = trim s"
  using trim_ends [of s] by (auto simp: dropWhile_eq_self_iff)

lemma trim_idem: "trim (trim s) = trim s"
proof (cases "trim s = []")
  case True
  then show ?thesis by (simp add: trim_Nil)
next
  case False
  then have "\<not> isSpace (last (trim s))" using trim_ends by blast
  with False have "dropWhile isSpace (rev (trim s)) = rev (trim s)"
    by (simp add: dropWhile_eq_self_iff hd_rev)
  then show ?thesis
    using dropWhile_trim [of s] by (simp add: trim_def [of "trim s"])
qed

section \<open>Valid payloads pass every check\<close>

lemma validPayload_title:
  "validPayload b \<Longrightarrow> \<exists>t. req_title b = JStr t \<and> t \<noteq> [] \<and> trim t \<noteq> [] \<and> length (trim t) \<le> 200"
  by (cases "req_title b") (auto simp: validPayload_def trim_Nil)

lemma validPayload_description:
  "validPayload b \<Longrightarrow>
     \<not> truthy (req_description b) \<or> (\<exists>d. req_description b = JStr d \<and> length (trim d) \<le> 1000)"
  by (cases "req_description b") (auto simp: validPayload_def split: if_splits)

lemma validPayload_enums:
  "validPayload b \<Longrightarrow>
     (truthy (req_priority b) \<longrightarrow> includes_str priorities (req_priority b)) \<and>
     (truthy (req_status b) \<longrightarrow> includes_str statuses (req_status b))"
  by (simp add: validPayload_def split: if_splits)

lemma validPayload_validate: "validPayload b \<Longrightarrow> validateTask b = None"
  using validPayload_title [of b] validPayload_enums [of b]
  by (auto simp: validateTask_def jsTrim_def)

lemma validPayload_data:
  "validPayload b \<Longrightarrow>
     taskData b = Inr (trim (strOf (req_title b)),
                       (if truthy (req_description b) then trim (strOf (req_description b)) else []),
                       orElse (req_priority b) ''medium'', orElse (req_status b) ''pending'')"
  using validPayload_title [of b] validPayload_description [of b]
  by (auto simp: taskData_def jsTrim_def)

lemma includes_orElse:
  "d \<in> set xs \<Longrightarrow> (truthy j \<longrightarrow> includes_str xs j) \<Longrightarrow> includes_str xs (orElse j d)"
  by (simp add: orElse_def includes_str_def)

lemma validPayload_schema:
  assumes "validPayload b"
  shows "schemaErrors (trim (trim (strOf (req_title b))))
        (trim (if truthy (req_description b) then trim (strOf (req_description b)) else []))
        (orElse (req_priority b) ''medium'') (orElse (req_status b) ''pending'') = []"
proof -
  from assms obtain t where t: "req_title b = JStr t" "trim t \<noteq> []" "length (trim t) \<le> 200"
    using validPayload_title by blast
  have d: "length (trim (if truthy (req_description b) then trim (strOf (req_description b)) else []))
              \<le> 1000"
    using validPayload_description [OF assms] by (auto simp: trim_idem trim_Nil)
  have p: "includes_str priorities (orElse (req_priority b) ''medium'')"
    using validPayload_enums [OF assms] by (intro includes_orElse) (simp_all add: priorities_def)
  have s: "includes_str statuses (orElse (req_status b) ''pending'')"
    using validPayload_enums [OF assms] by (intro includes_orElse) (simp_all add: statuses_def)
  from t d p s show ?thesis
    by (simp add: schemaErrors_def trim_idem trim_Nil)
qed

section \<open>The collection and the write handlers on valid payloads\<close>

lemma findById_SomeD: "findById oid s = Some doc \<Longrightarrow> doc \<in> set s \<and> task_id doc = oid"
  by (auto simp: findById_def find_Some_iff)

lemma findById_None_iff: "findById oid s = None \<longleftrightarrow> oid \<notin> task_id ` set s"
  by (auto simp: findById_def find_None_iff)

lemma findById_updateFirst:
  "findById oid s = Some doc \<Longrightarrow> task_id (f doc) = oid \<Longrightarrow>
     findById oid (updateFirst oid f s) = Some (f doc)"
  by (induction s) (auto simp: findById_def)

lemma updateFirst_ids:
  "(\<And>doc. task_id (f doc) = task_id doc) \<Longrightarrow> map task_id (updateFirst oid f s) = map task_id s"
  by (induction s) auto

lemma updateFirst_createdAt:
  "(\<And>doc. createdAt (f doc) = createdAt doc) \<Longrightarrow>
     map createdAt (updateFirst oid f s) = map createdAt s"
  by (induction s) auto

lemma createTask_valid:
  assumes "validPayload b" "oid \<notin> set (map task_id s)"
  shows "createTask oid tc tu ts b s =
     (Inr \<lparr>task_id = oid, title = trim (strOf (req_title b)),
           description = (if truthy (req_description b) then trim (strOf (req_description b)) else []),
           priority = strOf (orElse (req_priority b) ''medium''),
           status = strOf (orElse (req_status b) ''pending''),
           createdAt = tc, updatedAt = ts\<rparr>,
      s @ [\<lparr>task_id = oid, title = trim (strOf (req_title b)),
           description = (if truthy (req_description b) then trim (strOf (req_description b)) else []),
           priority = strOf (orElse (req_priority b) ''medium''),
           status = strOf (orElse (req_status b) ''pending''),
           createdAt = tc, updatedAt = ts\<rparr>])"
  using assms(2) validPayload_validate [OF assms(1)] validPayload_data [OF assms(1)]
    validPayload_schema [OF assms(1)]
  by (simp add: createTask_def trim_idem trim_Nil Let_def)

lemma updateTask_valid:
  assumes "validPayload b" "cast idstr = Some oid" "findById oid s = Some old"
  shows "updateTask cast now idstr b s =
     (Inr (old\<lparr>title := trim (strOf (req_title b)),
           description := (if truthy (req_description b) then trim (strOf (req_description b)) else []),
           priority := strOf (orElse (req_priority b) ''medium''),
           status := strOf (orElse (req_status b) ''pending''),
           updatedAt := now\<rparr>),
      updateFirst oid (\<lambda>doc. doc\<lparr>title := trim (strOf (req_title b)),
           description := (if truthy (req_description b) then trim (strOf (req_description b)) else []),
           priority := strOf (orElse (req_priority b) ''medium''),
           status := strOf (orElse (req_status b) ''pending''),
           updatedAt := now\<rparr>) s)"
  using assms(2,3) validPayload_validate [OF assms(1)] validPayload_data [OF assms(1)]
    validPayload_schema [OF assms(1)]
  by (simp add: updateTask_def trim_idem trim_Nil Let_def)

lemma updateTask_absent:
  assumes "validPayload b" "cast idstr = Some oid" "findById oid s = None"
  shows "updateTask cast now idstr b s = (Inl NotFound, s)"
  using assms(2,3) validPayload_validate [OF assms(1)] validPayload_data [OF assms(1)]
    validPayload_schema [OF assms(1)]
  by (simp add: updateTask_def trim_idem trim_Nil Let_def)

lemma validateTask_None_iff:
  "validateTask b = None \<longleftrightarrow>
     (\<exists>t. req_title b = JStr t \<and> trim t \<noteq> []) \<and>
     (truthy (req_priority b) \<longrightarrow> includes_str priorities (req_priority b)) \<and>
     (truthy (req_status b) \<longrightarrow> includes_str statuses (req_status b))"
  by (cases "req_title b") (auto simp: validateTask_def jsTrim_def trim_Nil)

lemma taskData_Inr_description:
  "taskData b = Inr (t, d, p, st) \<Longrightarrow>
     (if truthy (req_description b) then req_description b = JStr (strOf (req_description b)) \<and>
         d = trim (strOf (req_description b)) else d = [])"
  by (cases "req_description b")
     (auto simp: taskData_def jsTrim_def split: sum.splits if_splits json.splits)

lemma schemaErrors_Nil_iff:
  "schemaErrors t d p st = [] \<longleftrightarrow>
     t \<noteq> [] \<and> length t \<le> 200 \<and> length d \<le> 1000 \<and>
     includes_str priorities p \<and> includes_str statuses st"
  by (auto simp: schemaErrors_def)

lemma writes_valid:
  assumes v: "validateTask b = None" and d: "taskData b = Inr (t, d, p, st)"
    and e: "schemaErrors (trim t) (trim d) p st = []"
  shows "validPayload b"
proof -
  from v obtain x where x: "req_title b = JStr x" "trim x \<noteq> []"
    and en: "truthy (req_priority b) \<longrightarrow> includes_str priorities (req_priority b)"
            "truthy (req_status b) \<longrightarrow> includes_str statuses (req_status b)"
    unfolding validateTask_None_iff by blast
  from d x have t: "t = trim x" by (auto simp: taskData_def jsTrim_def split: sum.splits)
  from e have len: "length (trim t) \<le> 200" "length (trim d) \<le> 1000"
    by (simp_all add: schemaErrors_Nil_iff)
  have dd: "if truthy (req_description b)
        then req_description b = JStr (strOf (req_description b)) \<and>
             d = trim (strOf (req_description b))
        else d = []"
    using taskData_Inr_description [OF d] .
  show ?thesis
  proof (cases "truthy (req_description b)")
    case True
    with dd obtain y where "req_description b = JStr y" "d = trim y" by metis
    with x t len en True show ?thesis by (simp add: validPayload_def trim_idem)
  next
    case False
    with x t len en show ?thesis by (simp add: validPayload_def trim_idem)
  qed
qed

lemma createTask_InrD:
  assumes "createTask oid tc tu ts b s = (Inr doc, s')"
  shows "validPayload b \<and> oid \<notin> set (map task_id s)"
proof -
  from assms have v: "validateTask b = None"
    by (auto simp: createTask_def split: option.splits)
  with assms obtain t d p st where d: "taskData b = Inr (t, d, p, st)"
    by (auto simp: createTask_def split: sum.splits)
  with assms v have e: "schemaErrors (trim t) (trim d) p st = []"
    by (auto simp: createTask_def Let_def split: if_splits)
  with assms v d have "oid \<notin> set (map task_id s)"
    by (auto simp: createTask_def Let_def split: if_splits)
  with writes_valid [OF v d e] show ?thesis by simp
qed

lemma updateTask_InrD:
  assumes "updateTask cast now idstr b s = (Inr doc, s')"
  shows "validPayload b \<and> (\<exists>oid old. cast idstr = Some oid \<and> findById oid s = Some old)"
proof -
  from assms have v: "validateTask b = None"
    by (auto simp: updateTask_def split: option.splits)
  with assms obtain t d p st where d: "taskData b = Inr (t, d, p, st)"
    by (auto simp: updateTask_def split: sum.splits)
  with assms v obtain oid where c: "cast idstr = Some oid"
    by (auto simp: updateTask_def split: option.splits)
  with assms v d have e: "schemaErrors (trim t) (trim d) p st = []"
    by (auto simp: updateTask_def Let_def split: if_splits)
  with assms v d c obtain old where "findById oid s = Some old"
    by (auto simp: updateTask_def Let_def split: option.splits)
  with writes_valid [OF v d e] c show ?thesis by simp
qed

lemma createTask_InlD:
  "fst (createTask oid tc tu ts b s) = Inl e \<Longrightarrow> snd (createTask oid tc tu ts b s) = s"
  by (auto simp: createTask_def Let_def split: option.splits sum.splits if_splits)

lemma updateTask_InlD:
  "fst (updateTask cast now idstr b s) = Inl e \<Longrightarrow> snd (updateTask cast now idstr b s) = s"
  by (auto simp: updateTask_def Let_def split: option.splits sum.splits if_splits)

lemma findById_append_fresh:
  "oid \<notin> set (map task_id s) \<Longrightarrow> task_id doc = oid \<Longrightarrow> findById oid (s @ [doc]) = Some doc"
  by (induction s) (auto simp: findById_def)

lemma validPayload_enum_value:
  assumes "validPayload b"
  shows "strOf (orElse (req_priority b) ''medium'') =
           (case req_priority b of JStr p \<Rightarrow> if p = [] then ''medium'' else p | _ \<Rightarrow> ''medium'')"
    and "strOf (orElse (req_status b) ''pending'') =
           (case req_status b of JStr p \<Rightarrow> if p = [] then ''pending'' else p | _ \<Rightarrow> ''pending'')"
  using validPayload_enums [OF assms]
  by (cases "req_priority b"; cases "req_status b"; simp add: orElse_def includes_str_def)+

lemma validPayload_description_value:
  assumes "validPayload b"
  shows "(if truthy (req_description b) then trim (strOf (req_description b)) else []) =
           (case req_description b of JStr d \<Rightarrow> trim d | _ \<Rightarrow> [])"
  using validPayload_description [OF assms]
  by (cases "req_description b") (auto simp: trim_Nil)

lemma findById_present:
  "distinct (map task_id s) \<Longrightarrow> doc \<in> set s \<Longrightarrow> findById (task_id doc) s = Some doc"
  by (induction s) (auto simp: findById_def)

lemma set_deleteFirst:
  "distinct (map task_id s) \<Longrightarrow> set (deleteFirst oid s) = {doc \<in> set s. task_id doc \<noteq> oid}"
  by (induction s) (auto simp: image_iff)

lemma distinct_deleteFirst:
  "distinct (map task_id s) \<Longrightarrow> distinct (map task_id (deleteFirst oid s))"
  by (induction s) (auto simp: set_deleteFirst)

lemma deleteFirst_absent: "oid \<notin> set (map task_id s) \<Longrightarrow> deleteFirst oid s = s"
  by (induction s) auto

lemma getTask_absent:
  "cast idstr = Some oid \<Longrightarrow> oid \<notin> set (map task_id s) \<Longrightarrow> getTask cast idstr s = Inl NotFound"
  by (simp add: getTask_def findById_None_iff [THEN iffD2])

lemma deleteTask_absent:
  "cast idstr = Some oid \<Longrightarrow> oid \<notin> set (map task_id s) \<Longrightarrow>
     deleteTask cast idstr s = (Inl NotFound, s)"
  by (simp add: deleteTask_def findById_None_iff [THEN iffD2])

lemma malformed_id:
  assumes "cast idstr = None"
  shows "getTask cast idstr s = Inl InvalidIdentifier"
    and "deleteTask cast idstr s = (Inl InvalidIdentifier, s)"
    and "validPayload b \<Longrightarrow> updateTask cast now idstr b s = (Inl InvalidIdentifier, s)"
  using assms validPayload_validate [of b] validPayload_data [of b]
  by (simp_all add: getTask_def deleteTask_def updateTask_def)

section \<open>Filters and the ordering instance\<close>

lemma mset_insertBy: "mset (insertBy le x xs) = add_mset x (mset xs)"
  by (induction xs) auto

lemma mset_sortDocs: "mset (sortDocs le xs) = mset xs"
  unfolding sortDocs_def by (induction xs) (auto simp: mset_insertBy)

lemma fieldSort_perm: "fieldSort f dir xs = Inr ys \<Longrightarrow> mset ys = mset xs"
  by (auto simp: fieldSort_def mset_sortDocs split: if_splits)

lemma filterValue_None_iff:
  "filterValue v = None \<longleftrightarrow> v = None \<or> v = Some [] \<or> v = Some ''all''"
  by (auto simp: filterValue_def split: option.splits)

lemma filterValue_Some_iff:
  "filterValue v = Some x \<longleftrightarrow> v = Some x \<and> x \<noteq> [] \<and> x \<noteq> ''all''"
  by (auto simp: filterValue_def split: option.splits)

lemma matches_iff:
  "matches (filterValue vs) (filterValue vp) doc \<longleftrightarrow>
     (vs = None \<or> vs = Some [] \<or> vs = Some ''all'' \<or> vs = Some (status doc)) \<and>
     (vp = None \<or> vp = Some [] \<or> vp = Some ''all'' \<or> vp = Some (priority doc))"
proof -
  have "(case filterValue v of None \<Rightarrow> True | Some x \<Rightarrow> y = x) \<longleftrightarrow>
        (v = None \<or> v = Some [] \<or> v = Some ''all'' \<or> v = Some y)" for v :: "string option" and y :: string
    by (auto simp: filterValue_def split: option.splits)
  then show ?thesis by (simp add: matches_def)
qed

lemma listTasks_returns_iff:
  "(\<exists>r. listTasks srt q s = Inr r) \<longleftrightarrow>
     (\<exists>tasks. srt (sortField (q_sortBy q)) (sortDirection (q_order q))
        (filter (matches (filterValue (q_status q)) (filterValue (q_priority q))) s) = Inr tasks)"
  by (auto simp: listTasks_def Let_def split: sum.splits)

lemma listTasks_fieldSort_returns:
  "sortField (q_sortBy q) \<noteq> [] \<Longrightarrow>
     \<exists>tasks. listTasks fieldSort q s = Inr (tasks, length tasks)"
  by (simp add: listTasks_def fieldSort_def Let_def)

lemma ascending_example:
  "listTasks fieldSort
      \<lparr>q_status = None, q_priority = None, q_sortBy = Some ''createdAt'', q_order = Some ''asc''\<rparr>
      [\<lparr>task_id = 11, title = ''Review'', description = [], priority = ''low'',
         status = ''completed'', createdAt = 1500, updatedAt = 1600\<rparr>,
       \<lparr>task_id = 10, title = ''Write spec'', description = [], priority = ''high'',
         status = ''pending'', createdAt = 1000, updatedAt = 1001\<rparr>]
     = Inr ([\<lparr>task_id = 10, title = ''Write spec'', description = [], priority = ''high'',
               status = ''pending'', createdAt = 1000, updatedAt = 1001\<rparr>,
             \<lparr>task_id = 11, title = ''Review'', description = [], priority = ''low'',
               status = ''completed'', createdAt = 1500, updatedAt = 1600\<rparr>], 2)"
  by code_simp

section \<open>Grouping and the priority object\<close>

lemma keys_groupStep: "fst ` set (groupStep g k) = insert k (fst ` set g)"
  by (induction g k rule: groupStep.induct) auto

lemma distinct_groupStep:
  "distinct (map fst g) \<Longrightarrow> distinct (map fst (groupStep g k))"
  by (induction g k rule: groupStep.induct) (auto simp: keys_groupStep)

lemma sum_groupStep: "sum_list (map snd (groupStep g k)) = Suc (sum_list (map snd g))"
  by (induction g k rule: groupStep.induct) auto

lemma map_of_groupStep:
  "map_of (groupStep g k) k' =
     (if k' = k then Some (case map_of g k of None \<Rightarrow> 1 | Some c \<Rightarrow> c + 1) else map_of g k')"
  by (induction g k rule: groupStep.induct) auto

lemma keys_foldl_groupStep: "fst ` set (foldl groupStep g ks) = fst ` set g \<union> set ks"
  by (induction ks arbitrary: g) (auto simp: keys_groupStep)

lemma distinct_foldl_groupStep:
  "distinct (map fst g) \<Longrightarrow> distinct (map fst (foldl groupStep g ks))"
  by (induction ks arbitrary: g) (auto simp: distinct_groupStep)

lemma sum_foldl_groupStep:
  "sum_list (map snd (foldl groupStep g ks)) = sum_list (map snd g) + length ks"
  by (induction ks arbitrary: g) (auto simp: sum_groupStep)

lemma map_of_foldl_groupStep:
  "map_of (foldl groupStep g ks) k =
     (case map_of g k of
        None \<Rightarrow> if k \<in> set ks then Some (length (filter (\<lambda>x. x = k) ks)) else None
      | Some c \<Rightarrow> Some (c + length (filter (\<lambda>x. x = k) ks)))"
proof (induction ks arbitrary: g)
  case Nil
  then show ?case by (simp split: option.splits)
next
  case (Cons x ks)
  show ?case
    by (simp add: Cons.IH map_of_groupStep split: option.splits)
qed

lemma map_of_groupCount:
  "map_of (groupCount ks) k =
     (if k \<in> set ks then Some (length (filter (\<lambda>x. x = k) ks)) else None)"
  by (simp add: groupCount_def map_of_foldl_groupStep)

lemma assign_fresh: "k \<notin> fst ` set acc \<Longrightarrow> assign acc k v = acc @ [(k, v)]"
  by (induction acc k v rule: assign.induct) auto

lemma foldl_jsSet:
  "distinct (map fst (acc @ items)) \<Longrightarrow> ''__proto__'' \<notin> fst ` set items \<Longrightarrow>
     foldl (\<lambda>acc item. jsSet acc (fst item) (snd item)) acc items = acc @ items"
proof (induction items arbitrary: acc)
  case Nil
  then show ?case by simp
next
  case (Cons item items)
  from Cons.prems have f: "fst item \<notin> fst ` set acc" and p: "fst item \<noteq> ''__proto__''"
    by auto
  then have s: "jsSet acc (fst item) (snd item) = acc @ [item]"
    by (simp add: jsSet_def assign_fresh)
  from Cons.prems have "distinct (map fst ((acc @ [item]) @ items))"
    and "''__proto__'' \<notin> fst ` set items"
    by auto
  from Cons.IH [OF this] s show ?case by simp
qed

lemma reducePriority_groupCount:
  "''__proto__'' \<notin> set ks \<Longrightarrow> reducePriority (groupCount ks) = groupCount ks"
proof -
  assume a: "''__proto__'' \<notin> set ks"
  have d: "distinct (map fst ([] @ groupCount ks))"
    using distinct_foldl_groupStep [of "[]" ks] by (simp add: groupCount_def)
  have k: "''__proto__'' \<notin> fst ` set (groupCount ks)"
    using a by (simp add: groupCount_def keys_foldl_groupStep)
  from foldl_jsSet [OF d k] show ?thesis by (simp add: reducePriority_def)
qed

lemma status_partition:
  "\<forall>doc \<in> set s. status doc \<in> set statuses \<Longrightarrow>
     length s = countDocuments (\<lambda>doc. status doc = ''completed'') s +
                countDocuments (\<lambda>doc. status doc = ''pending'') s +
                countDocuments (\<lambda>doc. status doc = ''in-progress'') s"
  by (induction s) (auto simp: countDocuments_def statuses_def)

lemma enum_not_proto: "''__proto__'' \<notin> set priorities"
  by (simp add: priorities_def)

lemma stats_example:
  "getStats
      [\<lparr>task_id = 10, title = ''Write spec'', description = [], priority = ''high'',
         status = ''completed'', createdAt = 1000, updatedAt = 2000\<rparr>]
     = \<lparr>st_total = 1, st_completed = 1, st_pending = 0, st_inProgress = 0,
        st_priority = [(''high'', 1)]\<rparr>"
  by code_simp

section \<open>When the write handlers succeed\<close>

lemma createTask_succeeds_iff:
  "(\<exists>doc s'. createTask oid tc tu ts b s = (Inr doc, s')) \<longleftrightarrow>
     validPayload b \<and> oid \<notin> set (map task_id s)"
  using createTask_InrD [of oid tc tu ts b s] createTask_valid [of b oid s tc tu ts]
  by auto

lemma updateTask_succeeds_iff:
  "(\<exists>doc s'. updateTask cast now idstr b s = (Inr doc, s')) \<longleftrightarrow>
     validPayload b \<and> (\<exists>oid. cast idstr = Some oid \<and> oid \<in> task_id ` set s)"
proof
  assume "\<exists>doc s'. updateTask cast now idstr b s = (Inr doc, s')"
  then obtain doc s' where "updateTask cast now idstr b s = (Inr doc, s')" by blast
  from updateTask_InrD [OF this] obtain oid old
    where v: "validPayload b" and o: "cast idstr = Some oid" "findById oid s = Some old"
    by blast
  from o(2) have "oid \<in> task_id ` set s" using findById_SomeD by blast
  with v o(1) show "validPayload b \<and> (\<exists>oid. cast idstr = Some oid \<and> oid \<in> task_id ` set s)"
    by blast
next
  assume a: "validPayload b \<and> (\<exists>oid. cast idstr = Some oid \<and> oid \<in> task_id ` set s)"
  then obtain oid where o: "cast idstr = Some oid" "oid \<in> task_id ` set s" by blast
  then obtain old where "findById oid s = Some old"
    using findById_None_iff [of oid s] by (cases "findById oid s") auto
  with updateTask_valid [of b cast idstr oid s old now] a o
  show "\<exists>doc s'. updateTask cast now idstr b s = (Inr doc, s')" by simp
qed

section \<open>What every operation keeps\<close>

text \<open>
  The two facts about the collection that the statistics and the removals rest on: every
  record has its status and priority in the enumerations, and no two records share an
  \<open>_id\<close>. Create, update and remove keep both.
\<close>

lemma validPayload_stored_enums:
  assumes "validPayload b"
  shows "strOf (orElse (req_priority b) ''medium'') \<in> set priorities"
    and "strOf (orElse (req_status b) ''pending'') \<in> set statuses"
  using validPayload_enums [OF assms]
  by (cases "req_priority b"; cases "req_status b";
      simp add: orElse_def includes_str_def priorities_def statuses_def)+

lemma set_updateFirst: "set (updateFirst oid f s) \<subseteq> set s \<union> f ` set s"
  by (induction s) auto

lemma set_deleteFirst_subset: "set (deleteFirst oid s) \<subseteq> set s"
  by (induction s) auto

lemma create_keeps_enums:
  assumes "\<forall>doc \<in> set s. status doc \<in> set statuses \<and> priority doc \<in> set priorities"
  shows "\<forall>doc \<in> set (snd (createTask oid tc tu ts b s)).
           status doc \<in> set statuses \<and> priority doc \<in> set priorities"
proof (cases "fst (createTask oid tc tu ts b s)")
  case (Inl e)
  then show ?thesis using assms createTask_InlD [of oid tc tu ts b s e] by simp
next
  case (Inr doc)
  then have c: "createTask oid tc tu ts b s = (Inr doc, snd (createTask oid tc tu ts b s))"
    by (simp add: prod_eq_iff)
  then have v: "validPayload b" "oid \<notin> set (map task_id s)"
    using createTask_InrD by blast+
  from createTask_valid [OF v, of tc tu ts] assms validPayload_stored_enums [OF v(1)]
  show ?thesis by simp
qed

lemma update_keeps_enums:
  assumes "\<forall>doc \<in> set s. status doc \<in> set statuses \<and> priority doc \<in> set priorities"
  shows "\<forall>doc \<in> set (snd (updateTask cast now idstr b s)).
           status doc \<in> set statuses \<and> priority doc \<in> set priorities"
proof (cases "fst (updateTask cast now idstr b s)")
  case (Inl e)
  then show ?thesis using assms updateTask_InlD [of cast now idstr b s e] by simp
next
  case (Inr doc)
  then have c: "updateTask cast now idstr b s = (Inr doc, snd (updateTask cast now idstr b s))"
    by (simp add: prod_eq_iff)
  then have v: "validPayload b"
    and "\<exists>oid old. cast idstr = Some oid \<and> findById oid s = Some old"
    using updateTask_InrD by blast+
  then obtain oid old where o: "cast idstr = Some oid" "findById oid s = Some old" by blast
  let ?upd = "\<lambda>doc. doc\<lparr>title := trim (strOf (req_title b)),
           description := (if truthy (req_description b) then trim (strOf (req_description b)) else []),
           priority := strOf (orElse (req_priority b) ''medium''),
           status := strOf (orElse (req_status b) ''pending''),
           updatedAt := now\<rparr>"
  from updateTask_valid [of b cast idstr oid s old now] v o
  have s': "snd (updateTask cast now idstr b s) = updateFirst oid ?upd s" by simp
  show ?thesis
  proof
    fix d assume "d \<in> set (snd (updateTask cast now idstr b s))"
    with s' set_updateFirst [of oid ?upd s] have "d \<in> set s \<or> d \<in> ?upd ` set s" by auto
    then show "status d \<in> set statuses \<and> priority d \<in> set priorities"
      using assms validPayload_stored_enums [OF v] by auto
  qed
qed

lemma delete_keeps_enums:
  assumes "\<forall>doc \<in> set s. status doc \<in> set statuses \<and> priority doc \<in> set priorities"
  shows "\<forall>doc \<in> set (snd (deleteTask cast idstr s)).
           status doc \<in> set statuses \<and> priority doc \<in> set priorities"
  using assms set_deleteFirst_subset [of _ s]
  by (auto simp: deleteTask_def split: option.splits)

lemma create_keeps_ids_distinct:
  "distinct (map task_id s) \<Longrightarrow> distinct (map task_id (snd (createTask oid tc tu ts b s)))"
  by (auto simp: createTask_def Let_def split: option.splits sum.splits if_splits)

lemma update_keeps_ids_distinct:
  assumes "distinct (map task_id s)"
  shows "distinct (map task_id (snd (updateTask cast now idstr b s)))"
proof -
  have "map task_id (snd (updateTask cast now idstr b s)) = map task_id s"
    by (auto simp: updateTask_def Let_def updateFirst_ids split: option.splits sum.splits if_splits)
  with assms show ?thesis by simp
qed

lemma delete_keeps_ids_distinct:
  "distinct (map task_id s) \<Longrightarrow> distinct (map task_id (snd (deleteTask cast idstr s)))"
  by (auto simp: deleteTask_def distinct_deleteFirst split: option.splits)

text \<open>What a record returned by create or update holds.\<close>

lemma written_fields:
  assumes "createTask oid tc tu ts b s = (Inr doc, s') \<or>
           updateTask cast now idstr b s = (Inr doc, s')"
  shows "validateTask b = None \<and>
     (\<exists>t. req_title b = JStr t \<and> title doc = trim t) \<and>
     \<not> isSpace (hd (title doc)) \<and> \<not> isSpace (last (title doc)) \<and>
     description doc = (case req_description b of JStr d \<Rightarrow> trim d | _ \<Rightarrow> []) \<and>
     (description doc = [] \<or>
        \<not> isSpace (hd (description doc)) \<and> \<not> isSpace (last (description doc))) \<and>
     priority doc =
       (case req_priority b of JStr p \<Rightarrow> if p = [] then ''medium'' else p | _ \<Rightarrow> ''medium'') \<and>
     status doc =
       (case req_status b of JStr p \<Rightarrow> if p = [] then ''pending'' else p | _ \<Rightarrow> ''pending'') \<and>
     (req_description b = JUndefined \<longrightarrow> description doc = []) \<and>
     (req_priority b = JUndefined \<longrightarrow> priority doc = ''medium'') \<and>
     (req_status b = JUndefined \<longrightarrow> status doc = ''pending'') \<and>
     findById (task_id doc) s' = Some doc"
proof -
  have v: "validPayload b"
    using assms createTask_InrD updateTask_InrD by blast
  then obtain t where t: "req_title b = JStr t" "trim t \<noteq> []"
    using validPayload_title by blast
  have fields: "title doc = trim t \<and>
      description doc = (case req_description b of JStr d \<Rightarrow> trim d | _ \<Rightarrow> []) \<and>
      priority doc =
       (case req_priority b of JStr p \<Rightarrow> if p = [] then ''medium'' else p | _ \<Rightarrow> ''medium'') \<and>
      status doc =
       (case req_status b of JStr p \<Rightarrow> if p = [] then ''pending'' else p | _ \<Rightarrow> ''pending'') \<and>
      findById (task_id doc) s' = Some doc"
    using assms
  proof
    assume c: "createTask oid tc tu ts b s = (Inr doc, s')"
    then have f: "oid \<notin> set (map task_id s)" using createTask_InrD by blast
    from c createTask_valid [OF v f, of tc tu ts]
    have "task_id doc = oid" "s' = s @ [doc]" "title doc = trim (strOf (req_title b))"
      "description doc =
         (if truthy (req_description b) then trim (strOf (req_description b)) else [])"
      "priority doc = strOf (orElse (req_priority b) ''medium'')"
      "status doc = strOf (orElse (req_status b) ''pending'')"
      by auto
    with t f show ?thesis
      by (simp add: validPayload_enum_value [OF v] validPayload_description_value [OF v]
            findById_append_fresh)
  next
    assume u: "updateTask cast now idstr b s = (Inr doc, s')"
    then obtain i old where i: "cast idstr = Some i" "findById i s = Some old"
      using updateTask_InrD by blast
    let ?upd = "\<lambda>doc. doc\<lparr>title := trim (strOf (req_title b)),
           description := (if truthy (req_description b) then trim (strOf (req_description b)) else []),
           priority := strOf (orElse (req_priority b) ''medium''),
           status := strOf (orElse (req_status b) ''pending''),
           updatedAt := now\<rparr>"
    from u updateTask_valid [of b cast idstr i s old now] v i
    have d: "doc = ?upd old" "s' = updateFirst i ?upd s" by simp_all
    have o: "task_id old = i" using i(2) by (simp add: findById_SomeD)
    then have "findById i (updateFirst i ?upd s) = Some (?upd old)"
      using i(2) by (intro findById_updateFirst) simp_all
    with d o t show ?thesis
      by (simp add: validPayload_enum_value [OF v] validPayload_description_value [OF v])
  qed
  have e1: "\<not> isSpace (hd (trim t)) \<and> \<not> isSpace (last (trim t))"
    using trim_ends [OF t(2)] .
  have e2: "description doc = [] \<or>
        \<not> isSpace (hd (description doc)) \<and> \<not> isSpace (last (description doc))"
  proof (cases "req_description b")
    case (JStr d)
    with fields have "description doc = trim d" by simp
    then show ?thesis using trim_ends [of d] by auto
  qed (use fields in simp_all)
  from fields t e1 e2 validPayload_validate [OF v] show ?thesis
    by simp
qed

text \<open>Removal and lookups at an id string that the driver casts.\<close>

lemma remove_cast_id:
  assumes d: "distinct (map task_id s)" and c: "cast idstr = Some oid"
  shows "(\<forall>doc. doc \<in> set s \<and> task_id doc = oid \<longrightarrow>
            deleteTask cast idstr s = (Inr doc, deleteFirst oid s) \<and>
            set (deleteFirst oid s) = set s - {doc} \<and>
            oid \<notin> set (map task_id (deleteFirst oid s))) \<and>
         (oid \<notin> set (map task_id s) \<longrightarrow>
            getTask cast idstr s = Inl NotFound \<and>
            deleteTask cast idstr s = (Inl NotFound, s) \<and>
            (validPayload b \<longrightarrow> updateTask cast now idstr b s = (Inl NotFound, s))) \<and>
         getTask cast idstr (snd (deleteTask cast idstr s)) = Inl NotFound \<and>
         deleteTask cast idstr (snd (deleteTask cast idstr s))
           = (Inl NotFound, snd (deleteTask cast idstr s)) \<and>
         (validPayload b \<longrightarrow>
            updateTask cast now idstr b (snd (deleteTask cast idstr s))
              = (Inl NotFound, snd (deleteTask cast idstr s)))"
proof -
  have absent: "getTask cast idstr s' = Inl NotFound \<and>
            deleteTask cast idstr s' = (Inl NotFound, s') \<and>
            (validPayload b \<longrightarrow> updateTask cast now idstr b s' = (Inl NotFound, s'))"
    if "oid \<notin> set (map task_id s')" for s'
    using that c getTask_absent [of cast idstr oid s'] deleteTask_absent [of cast idstr oid s']
      updateTask_absent [of b cast idstr oid s' now]
    by (simp add: findById_None_iff)
  have gone: "oid \<notin> set (map task_id (deleteFirst oid s))"
    using d by (auto simp: set_deleteFirst)
  have present: "deleteTask cast idstr s = (Inr doc, deleteFirst oid s) \<and>
            set (deleteFirst oid s) = set s - {doc}"
    if "doc \<in> set s \<and> task_id doc = oid" for doc
  proof -
    from that d have f: "findById oid s = Some doc" using findById_present by blast
    have "\<And>x. x \<in> set s \<Longrightarrow> task_id x = oid \<Longrightarrow> x = doc"
      using d that by (metis findById_present option.inject)
    then have "set (deleteFirst oid s) = set s - {doc}"
      using that by (auto simp: set_deleteFirst [OF d])
    with f c show ?thesis by (simp add: deleteTask_def)
  qed
  have after: "oid \<notin> set (map task_id (snd (deleteTask cast idstr s)))"
  proof (cases "findById oid s")
    case None
    with c show ?thesis by (simp add: deleteTask_def findById_None_iff [symmetric])
  next
    case (Some doc)
    with c gone show ?thesis by (simp add: deleteTask_def)
  qed
  from absent [OF after] absent [of s] present gone show ?thesis by blast
qed

section \<open>The validation pipeline\<close>

lemma create_validation_fails:
  "validateTask b = Some e \<Longrightarrow> createTask oid tc tu ts b s = (Inl e, s)"
  by (simp add: createTask_def)

lemma update_validation_fails:
  "validateTask b = Some e \<Longrightarrow> updateTask cast now idstr b s = (Inl e, s)"
  by (simp add: updateTask_def)

lemma includes_str_iff: "includes_str xs j = (j \<in> JStr ` set xs)"
  by (cases j) (auto simp: includes_str_def)

text \<open>
  Claim C1, as the code has it. The checks of \<open>validateTask\<close> run in a fixed order and the
  first failure is the answer. A title that is absent, falsy (the empty string among
  them) or a string that is empty after trimming fails with \<open>MissingField ''title''\<close>.
  Otherwise, for a title that is a string, a priority that is truthy and not one of low,
  medium, high fails with \<open>InvalidEnum ''priority''\<close>; otherwise a status that is truthy
  and not one of pending, in-progress, completed fails with \<open>InvalidEnum ''status''\<close>;
  otherwise validation passes. A falsy priority or status (absent, \<open>null\<close>, the empty
  string) is not checked. Create and update both answer with the failure of the
  validation and leave the collection as it was.
\<close>

theorem validateTask_order:
  "(\<not> truthy (req_title b) \<or> (\<exists>t. req_title b = JStr t \<and> trim t = [])
      \<longrightarrow> validateTask b = Some (MissingField ''title'')) \<and>
   (\<forall>t. req_title b = JStr t \<and> trim t \<noteq> [] \<longrightarrow>
      validateTask b =
        (if truthy (req_priority b) \<and>
            req_priority b \<notin> {JStr ''low'', JStr ''medium'', JStr ''high''}
         then Some (InvalidEnum ''priority'')
         else if truthy (req_status b) \<and>
            req_status b \<notin> {JStr ''pending'', JStr ''in-progress'', JStr ''completed''}
         then Some (InvalidEnum ''status'')
         else None)) \<and>
   (\<forall>e. validateTask b = Some e \<longrightarrow>
      createTask oid tc tu ts b s = (Inl e, s) \<and>
      updateTask cast now idstr b s = (Inl e, s))"
proof (intro conjI allI impI)
  assume "\<not> truthy (req_title b) \<or> (\<exists>t. req_title b = JStr t \<and> trim t = [])"
  then show "validateTask b = Some (MissingField ''title'')"
    by (auto simp: validateTask_def jsTrim_def)
next
  fix t
  assume "req_title b = JStr t \<and> trim t \<noteq> []"
  then show "validateTask b =
        (if truthy (req_priority b) \<and>
            req_priority b \<notin> {JStr ''low'', JStr ''medium'', JStr ''high''}
         then Some (InvalidEnum ''priority'')
         else if truthy (req_status b) \<and>
            req_status b \<notin> {JStr ''pending'', JStr ''in-progress'', JStr ''completed''}
         then Some (InvalidEnum ''status'')
         else None)"
    by (auto simp: validateTask_def jsTrim_def trim_Nil includes_str_iff priorities_def statuses_def)
next
  fix e
  assume "validateTask b = Some e"
  then show "createTask oid tc tu ts b s = (Inl e, s)" by (rule create_validation_fails)
next
  fix e
  assume "validateTask b = Some e"
  then show "updateTask cast now idstr b s = (Inl e, s)" by (rule update_validation_fails)
qed

theorem validateTask_order_witness:
  "validateTask \<lparr>req_title = JStr ''   '', req_description = JUndefined,
                  req_priority = JStr ''urgent'', req_status = JStr ''done''\<rparr>
     = Some (MissingField ''title'') \<and>
   validateTask \<lparr>req_title = JStr ''Write spec'', req_description = JUndefined,
                  req_priority = JStr ''urgent'', req_status = JStr ''done''\<rparr>
     = Some (InvalidEnum ''priority'') \<and>
   validateTask \<lparr>req_title = JStr ''Write spec'', req_description = JUndefined,
                  req_priority = JStr ''high'', req_status = JStr ''done''\<rparr>
     = Some (InvalidEnum ''status'') \<and>
   validateTask \<lparr>req_title = JStr ''Write spec'', req_description = JUndefined,
                  req_priority = JStr ''high'', req_status = JUndefined\<rparr>
     = None \<and>
   createTask 1 1000 1000 1001
      \<lparr>req_title = JStr ''Write spec'', req_description = JUndefined,
        req_priority = JStr ''urgent'', req_status = JStr ''done''\<rparr> []
     = (Inl (InvalidEnum ''priority''), []) \<and>
   updateTask hexCast 1000 ''000000000000000000000001''
      \<lparr>req_title = JStr ''Write spec'', req_description = JUndefined,
        req_priority = JStr ''urgent'', req_status = JStr ''done''\<rparr> []
     = (Inl (InvalidEnum ''priority''), [])"
  using
    validateTask_order [of "\<lparr>req_title = JStr ''   '', req_description = JUndefined,
                  req_priority = JStr ''urgent'', req_status = JStr ''done''\<rparr>"]
    validateTask_order [of "\<lparr>req_title = JStr ''Write spec'', req_description = JUndefined,
                  req_priority = JStr ''urgent'', req_status = JStr ''done''\<rparr>"
       1 1000 1000 1001 "[]" hexCast 1000 "''000000000000000000000001''"]
    validateTask_order [of "\<lparr>req_title = JStr ''Write spec'', req_description = JUndefined,
                  req_priority = JStr ''high'', req_status = JStr ''done''\<rparr>"]
    validateTask_order [of "\<lparr>req_title = JStr ''Write spec'', req_description = JUndefined,
                  req_priority = JStr ''high'', req_status = JUndefined\<rparr>"]
  by (simp add: trim_def isSpace_def)

text \<open>
  The claim as written asks for \<open>InvalidEnum\<close> whenever a supplied priority is outside
  the enumeration. A priority supplied as the empty string is outside it, and passes.
\<close>

theorem validateTask_order_counterexample:
  "validateTask \<lparr>req_title = JStr ''Write spec'', req_description = JUndefined,
                  req_priority = JStr '''', req_status = JUndefined\<rparr> = None"
  by (simp add: validateTask_def jsTrim_def trim_def isSpace_def)

text \<open>A truthy title that is not a string: \<open>title.trim()\<close> throws.\<close>

lemma validateTask_title_not_string:
  "truthy (req_title b) \<Longrightarrow> \<forall>t. req_title b \<noteq> JStr t \<Longrightarrow> validateTask b = Some InternalError"
  by (cases "req_title b") (auto simp: validateTask_def jsTrim_def)

section \<open>Timestamps\<close>

text \<open>
  Claim C2, as the code has it. For every valid payload and a fresh ObjectId, create
  succeeds and appends the returned record. Its \<open>createdAt\<close> is the reading of the clock
  taken when the document is built, its \<open>updatedAt\<close> the later reading taken by the
  \<open>pre('save')\<close> hook: under a monotone clock \<open>createdAt \<le> updatedAt\<close>, and the two are
  equal when the clock has not advanced between the two readings.
\<close>

theorem create_timestamps:
  assumes "validPayload b" and "oid \<notin> set (map task_id s)"
  shows "\<exists>doc. createTask oid tc tu ts b s = (Inr doc, s @ [doc]) \<and>
           task_id doc = oid \<and> createdAt doc = tc \<and> updatedAt doc = ts \<and>
           (tc \<le> ts \<longrightarrow> createdAt doc \<le> updatedAt doc) \<and>
           (tc = ts \<longrightarrow> createdAt doc = updatedAt doc)"
  using createTask_valid [OF assms, of tc tu ts] by simp

theorem create_timestamps_witness:
  "validPayload \<lparr>req_title = JStr '' Write spec '', req_description = JUndefined,
                  req_priority = JStr ''high'', req_status = JUndefined\<rparr> \<and>
   (\<exists>doc. createTask 1 1000 1000 1001
            \<lparr>req_title = JStr '' Write spec '', req_description = JUndefined,
              req_priority = JStr ''high'', req_status = JUndefined\<rparr> [] = (Inr doc, [doc]) \<and>
          createdAt doc = 1000 \<and> updatedAt doc = 1001 \<and> createdAt doc \<le> updatedAt doc)"
proof -
  have v: "validPayload \<lparr>req_title = JStr '' Write spec '', req_description = JUndefined,
                  req_priority = JStr ''high'', req_status = JUndefined\<rparr>"
    by (simp add: validPayload_def trim_def isSpace_def includes_str_def priorities_def)
  have f: "(1::nat) \<notin> set (map task_id [])" by simp
  from create_timestamps [OF v f, of 1000 1000 1001] v show ?thesis by auto
qed

text \<open>
  The claim as written asks for \<open>createdAt = updatedAt\<close>. The clock advances by one
  millisecond between the construction of the document and the hook, and the two differ.
\<close>

theorem create_timestamps_counterexample:
  "createTask 1 1000 1000 1001
      \<lparr>req_title = JStr ''Write spec'', req_description = JUndefined,
        req_priority = JStr ''high'', req_status = JUndefined\<rparr> []
     = (Inr \<lparr>task_id = 1, title = ''Write spec'', description = [], priority = ''high'',
             status = ''pending'', createdAt = 1000, updatedAt = 1001\<rparr>,
        [\<lparr>task_id = 1, title = ''Write spec'', description = [], priority = ''high'',
             status = ''pending'', createdAt = 1000, updatedAt = 1001\<rparr>]) \<and>
   createdAt \<lparr>task_id = 1, title = ''Write spec'', description = [], priority = ''high'',
             status = ''pending'', createdAt = 1000, updatedAt = 1001\<rparr>
     \<noteq> updatedAt \<lparr>task_id = 1, title = ''Write spec'', description = [], priority = ''high'',
             status = ''pending'', createdAt = 1000, updatedAt = 1001\<rparr>"
  by (simp add: createTask_def validateTask_def taskData_def jsTrim_def trim_def isSpace_def
        orElse_def schemaErrors_def includes_str_def priorities_def statuses_def Let_def)

text \<open>
  Claim C3. For every stored record and every valid replacement payload, update succeeds;
  the record it returns, which is the record the collection then holds under the id, has
  the \<open>_id\<close> and the \<open>createdAt\<close> of the stored record, and its \<open>updatedAt\<close> is the reading
  of the clock taken by the hook, which is not before the previous \<open>updatedAt\<close> when the
  clock is monotone. No record of the collection changes its \<open>_id\<close> or \<open>createdAt\<close>.
\<close>

theorem update_frame:
  assumes "validPayload b" and "cast idstr = Some oid" and "findById oid s = Some old"
    and "updatedAt old \<le> now"
  shows "\<exists>new s'. updateTask cast now idstr b s = (Inr new, s') \<and>
           task_id new = task_id old \<and> createdAt new = createdAt old \<and>
           updatedAt new = now \<and> updatedAt old \<le> updatedAt new \<and>
           findById oid s' = Some new \<and>
           map task_id s' = map task_id s \<and> map createdAt s' = map createdAt s"
proof -
  let ?upd = "\<lambda>doc. doc\<lparr>title := trim (strOf (req_title b)),
           description := (if truthy (req_description b) then trim (strOf (req_description b)) else []),
           priority := strOf (orElse (req_priority b) ''medium''),
           status := strOf (orElse (req_status b) ''pending''),
           updatedAt := now\<rparr>"
  have u: "updateTask cast now idstr b s = (Inr (?upd old), updateFirst oid ?upd s)"
    using updateTask_valid [of b cast idstr oid s old now] assms(1-3) by simp
  have "task_id old = oid" using assms(3) by (simp add: findById_SomeD)
  then have f: "findById oid (updateFirst oid ?upd s) = Some (?upd old)"
    using assms(3) by (intro findById_updateFirst) simp_all
  have i: "map task_id (updateFirst oid ?upd s) = map task_id s"
    by (rule updateFirst_ids) simp
  have c: "map createdAt (updateFirst oid ?upd s) = map createdAt s"
    by (rule updateFirst_createdAt) simp
  from u f i c assms(4) show ?thesis by simp
qed

theorem update_frame_witness:
  "\<exists>new s'. updateTask hexCast 2000 ''00000000000000000000000a''
        \<lparr>req_title = JStr ''Write spec'', req_description = JUndefined,
          req_priority = JStr ''high'', req_status = JStr ''completed''\<rparr>
        [\<lparr>task_id = 10, title = ''Write spec'', description = [], priority = ''high'',
           status = ''pending'', createdAt = 1000, updatedAt = 1001\<rparr>] = (Inr new, s') \<and>
      task_id new = 10 \<and> createdAt new = 1000 \<and> updatedAt new = 2000 \<and>
      findById 10 s' = Some new"
proof -
  let ?b = "\<lparr>req_title = JStr ''Write spec'', req_description = JUndefined,
          req_priority = JStr ''high'', req_status = JStr ''completed''\<rparr>"
  let ?old = "\<lparr>task_id = 10, title = ''Write spec'', description = [], priority = ''high'',
           status = ''pending'', createdAt = 1000, updatedAt = 1001\<rparr>"
  have v: "validPayload ?b"
    by (simp add: validPayload_def trim_def isSpace_def includes_str_def priorities_def statuses_def)
  have c: "hexCast ''00000000000000000000000a'' = Some 10"
    by (simp add: hexCast_def hexDigit_def)
  have f: "findById 10 [?old] = Some ?old" by (simp add: findById_def)
  have t: "updatedAt ?old \<le> 2000" by simp
  from update_frame [of ?b hexCast "''00000000000000000000000a''" 10 "[?old]" ?old 2000] v c f t
  show ?thesis by fastforce
qed

section \<open>Trimming and defaults of the stored fields\<close>

text \<open>
  Claim C7. For every valid payload (so validation passes), create with a fresh ObjectId
  and update of a stored record both succeed, and the record each returns, which is the
  record the collection then holds under the id, has the trimmed title and the trimmed
  description, neither with white space at its ends; a description that is omitted is
  the empty string, a priority that is omitted is medium and a status that is omitted is
  pending. For update the values come from the payload alone: an omitted priority or
  status is reset to its default whatever the stored record held.
\<close>

theorem write_fields:
  assumes v: "validPayload b"
  shows "validateTask b = None \<and>
    (oid \<notin> set (map task_id s) \<longrightarrow>
       (\<exists>doc. createTask oid tc tu ts b s = (Inr doc, s @ [doc]) \<and>
          findById oid (s @ [doc]) = Some doc \<and>
          (\<exists>t. req_title b = JStr t \<and> title doc = trim t) \<and>
          \<not> isSpace (hd (title doc)) \<and> \<not> isSpace (last (title doc)) \<and>
          description doc = (case req_description b of JStr d \<Rightarrow> trim d | _ \<Rightarrow> []) \<and>
          (description doc = [] \<or>
             \<not> isSpace (hd (description doc)) \<and> \<not> isSpace (last (description doc))) \<and>
          priority doc =
            (case req_priority b of
               JStr p \<Rightarrow> if p = [] then ''medium'' else p | _ \<Rightarrow> ''medium'') \<and>
          status doc =
            (case req_status b of
               JStr p \<Rightarrow> if p = [] then ''pending'' else p | _ \<Rightarrow> ''pending'') \<and>
          (req_description b = JUndefined \<longrightarrow> description doc = []) \<and>
          (req_priority b = JUndefined \<longrightarrow> priority doc = ''medium'') \<and>
          (req_status b = JUndefined \<longrightarrow> status doc = ''pending''))) \<and>
    (cast idstr = Some i \<and> findById i s = Some old \<longrightarrow>
       (\<exists>doc s'. updateTask cast now idstr b s = (Inr doc, s') \<and>
          findById i s' = Some doc \<and>
          (\<exists>t. req_title b = JStr t \<and> title doc = trim t) \<and>
          \<not> isSpace (hd (title doc)) \<and> \<not> isSpace (last (title doc)) \<and>
          description doc = (case req_description b of JStr d \<Rightarrow> trim d | _ \<Rightarrow> []) \<and>
          (description doc = [] \<or>
             \<not> isSpace (hd (description doc)) \<and> \<not> isSpace (last (description doc))) \<and>
          priority doc =
            (case req_priority b of
               JStr p \<Rightarrow> if p = [] then ''medium'' else p | _ \<Rightarrow> ''medium'') \<and>
          status doc =
            (case req_status b of
               JStr p \<Rightarrow> if p = [] then ''pending'' else p | _ \<Rightarrow> ''pending'') \<and>
          (req_description b = JUndefined \<longrightarrow> description doc = []) \<and>
          (req_priority b = JUndefined \<longrightarrow> priority doc = ''medium'') \<and>
          (req_status b = JUndefined \<longrightarrow> status doc = ''pending'')))"
proof (intro conjI impI)
  show "validateTask b = None" using v by (rule validPayload_validate)
next
  assume f: "oid \<notin> set (map task_id s)"
  from createTask_valid [OF v f, of tc tu ts]
  obtain doc where c: "createTask oid tc tu ts b s = (Inr doc, s @ [doc])"
    and o: "task_id doc = oid"
    by simp
  note w = written_fields [of oid tc tu ts b s doc "s @ [doc]" cast now idstr, OF disjI1 [OF c]]
  from w o have "findById oid (s @ [doc]) = Some doc" by simp
  with c w show "\<exists>doc. createTask oid tc tu ts b s = (Inr doc, s @ [doc]) \<and>
          findById oid (s @ [doc]) = Some doc \<and>
          (\<exists>t. req_title b = JStr t \<and> title doc = trim t) \<and>
          \<not> isSpace (hd (title doc)) \<and> \<not> isSpace (last (title doc)) \<and>
          description doc = (case req_description b of JStr d \<Rightarrow> trim d | _ \<Rightarrow> []) \<and>
          (description doc = [] \<or>
             \<not> isSpace (hd (description doc)) \<and> \<not> isSpace (last (description doc))) \<and>
          priority doc =
            (case req_priority b of
               JStr p \<Rightarrow> if p = [] then ''medium'' else p | _ \<Rightarrow> ''medium'') \<and>
          status doc =
            (case req_status b of
               JStr p \<Rightarrow> if p = [] then ''pending'' else p | _ \<Rightarrow> ''pending'') \<and>
          (req_description b = JUndefined \<longrightarrow> description doc = []) \<and>
          (req_priority b = JUndefined \<longrightarrow> priority doc = ''medium'') \<and>
          (req_status b = JUndefined \<longrightarrow> status doc = ''pending'')"
    by blast
next
  assume a: "cast idstr = Some i \<and> findById i s = Some old"
  then have i: "task_id old = i" using findById_SomeD [of i s old] by simp
  from updateTask_valid [of b cast idstr i s old now] v a
  obtain doc s' where u: "updateTask cast now idstr b s = (Inr doc, s')"
    and o: "task_id doc = task_id old"
    by simp
  note w = written_fields [of oid tc tu ts b s doc s' cast now idstr, OF disjI2 [OF u]]
  from w o i have "findById i s' = Some doc" by simp
  with u w show "\<exists>doc s'. updateTask cast now idstr b s = (Inr doc, s') \<and>
          findById i s' = Some doc \<and>
          (\<exists>t. req_title b = JStr t \<and> title doc = trim t) \<and>
          \<not> isSpace (hd (title doc)) \<and> \<not> isSpace (last (title doc)) \<and>
          description doc = (case req_description b of JStr d \<Rightarrow> trim d | _ \<Rightarrow> []) \<and>
          (description doc = [] \<or>
             \<not> isSpace (hd (description doc)) \<and> \<not> isSpace (last (description doc))) \<and>
          priority doc =
            (case req_priority b of
               JStr p \<Rightarrow> if p = [] then ''medium'' else p | _ \<Rightarrow> ''medium'') \<and>
          status doc =
            (case req_status b of
               JStr p \<Rightarrow> if p = [] then ''pending'' else p | _ \<Rightarrow> ''pending'') \<and>
          (req_description b = JUndefined \<longrightarrow> description doc = []) \<and>
          (req_priority b = JUndefined \<longrightarrow> priority doc = ''medium'') \<and>
          (req_status b = JUndefined \<longrightarrow> status doc = ''pending'')"
    by blast
qed

theorem write_fields_witness:
  "(\<exists>doc. createTask 11 3000 3000 3001
        \<lparr>req_title = JStr ''  Write spec '', req_description = JStr '' first draft  '',
          req_priority = JUndefined, req_status = JUndefined\<rparr>
        [\<lparr>task_id = 10, title = ''Draft'', description = ''old text'', priority = ''high'',
           status = ''completed'', createdAt = 1000, updatedAt = 1001\<rparr>]
      = (Inr doc,
         [\<lparr>task_id = 10, title = ''Draft'', description = ''old text'', priority = ''high'',
            status = ''completed'', createdAt = 1000, updatedAt = 1001\<rparr>, doc]) \<and>
      title doc = ''Write spec'' \<and> description doc = ''first draft'' \<and>
      priority doc = ''medium'' \<and> status doc = ''pending'') \<and>
   (\<exists>doc s'. updateTask hexCast 2000 ''00000000000000000000000a''
        \<lparr>req_title = JStr ''  Write spec '', req_description = JStr '' first draft  '',
          req_priority = JUndefined, req_status = JUndefined\<rparr>
        [\<lparr>task_id = 10, title = ''Draft'', description = ''old text'', priority = ''high'',
           status = ''completed'', createdAt = 1000, updatedAt = 1001\<rparr>]
      = (Inr doc, s') \<and> findById 10 s' = Some doc \<and>
      title doc = ''Write spec'' \<and> description doc = ''first draft'' \<and>
      priority doc = ''medium'' \<and> status doc = ''pending'')"
proof -
  let ?b = "\<lparr>req_title = JStr ''  Write spec '', req_description = JStr '' first draft  '',
          req_priority = JUndefined, req_status = JUndefined\<rparr>"
  let ?old = "\<lparr>task_id = 10, title = ''Draft'', description = ''old text'', priority = ''high'',
           status = ''completed'', createdAt = 1000, updatedAt = 1001\<rparr>"
  have v: "validPayload ?b"
    by (simp add: validPayload_def trim_def isSpace_def)
  have f: "(11::nat) \<notin> set (map task_id [?old])" by simp
  have c: "hexCast ''00000000000000000000000a'' = Some 10"
    by (simp add: hexCast_def hexDigit_def)
  have o: "findById 10 [?old] = Some ?old" by (simp add: findById_def)
  have t: "trim ''  Write spec '' = ''Write spec''" "trim '' first draft  '' = ''first draft''"
    by (simp_all add: trim_def isSpace_def)
  note w = write_fields [OF v, of 11 "[?old]" 3000 3000 3001 hexCast
      "''00000000000000000000000a''" 10 ?old 2000]
  from w f have "\<exists>doc. createTask 11 3000 3000 3001 ?b [?old] = (Inr doc, [?old, doc]) \<and>
      title doc = ''Write spec'' \<and> description doc = ''first draft'' \<and>
      priority doc = ''medium'' \<and> status doc = ''pending''"
    by (auto simp: t)
  moreover from w c o
  have "\<exists>doc s'. updateTask hexCast 2000 ''00000000000000000000000a'' ?b [?old] = (Inr doc, s') \<and>
      findById 10 s' = Some doc \<and>
      title doc = ''Write spec'' \<and> description doc = ''first draft'' \<and>
      priority doc = ''medium'' \<and> status doc = ''pending''"
    by (auto simp: t)
  ultimately show ?thesis by simp
qed

section \<open>Failed creates\<close>

text \<open>
  Claim C9. A payload that fails validation makes create fail with that failure and
  leaves the collection as it was, so the total of the statistics is what it was; a
  payload whose title is absent, falsy or empty after trimming, as in
  \<open>create({title: ""})\<close>, fails with \<open>MissingField ''title''\<close>. Whatever the failure of
  create, the collection is unchanged.
\<close>

theorem create_failure_unchanged:
  "(\<forall>e. validateTask b = Some e \<longrightarrow>
      createTask oid tc tu ts b s = (Inl e, s) \<and>
      st_total (getStats (snd (createTask oid tc tu ts b s))) = st_total (getStats s)) \<and>
   (\<not> truthy (req_title b) \<or> (\<exists>t. req_title b = JStr t \<and> trim t = []) \<longrightarrow>
      createTask oid tc tu ts b s = (Inl (MissingField ''title''), s)) \<and>
   (\<forall>e. fst (createTask oid tc tu ts b s) = Inl e \<longrightarrow>
      snd (createTask oid tc tu ts b s) = s \<and>
      getStats (snd (createTask oid tc tu ts b s)) = getStats s)"
proof (intro conjI allI impI)
  fix e assume "validateTask b = Some e"
  then show "createTask oid tc tu ts b s = (Inl e, s)" by (rule create_validation_fails)
  then show "st_total (getStats (snd (createTask oid tc tu ts b s))) = st_total (getStats s)"
    by simp
next
  assume "\<not> truthy (req_title b) \<or> (\<exists>t. req_title b = JStr t \<and> trim t = [])"
  then have "validateTask b = Some (MissingField ''title'')"
    by (auto simp: validateTask_def jsTrim_def)
  then show "createTask oid tc tu ts b s = (Inl (MissingField ''title''), s)"
    by (rule create_validation_fails)
next
  fix e assume "fst (createTask oid tc tu ts b s) = Inl e"
  then show "snd (createTask oid tc tu ts b s) = s" by (rule createTask_InlD)
  then show "getStats (snd (createTask oid tc tu ts b s)) = getStats s" by simp
qed

theorem create_failure_unchanged_witness:
  "createTask 2 3000 3000 3000
      \<lparr>req_title = JStr '''', req_description = JUndefined,
        req_priority = JUndefined, req_status = JUndefined\<rparr>
      [\<lparr>task_id = 1, title = ''Write spec'', description = [], priority = ''high'',
         status = ''pending'', createdAt = 1000, updatedAt = 1001\<rparr>]
     = (Inl (MissingField ''title''),
        [\<lparr>task_id = 1, title = ''Write spec'', description = [], priority = ''high'',
         status = ''pending'', createdAt = 1000, updatedAt = 1001\<rparr>])"
  using create_failure_unchanged [of
      "\<lparr>req_title = JStr '''', req_description = JUndefined,
        req_priority = JUndefined, req_status = JUndefined\<rparr>" 2 3000 3000 3000
      "[\<lparr>task_id = 1, title = ''Write spec'', description = [], priority = ''high'',
         status = ''pending'', createdAt = 1000, updatedAt = 1001\<rparr>]"]
  by simp

section \<open>Removing a record\<close>

text \<open>
  Claim C8. Ids are unique in the collection, and an id is an id string that the driver
  casts to an ObjectId. If a record has the id, remove deletes that record and no other
  and returns it; if no record has the id, get and remove fail with \<open>NotFound\<close>, and so
  does update, whose payload passes its checks before the id is looked up; after a
  remove, get, remove and update on the same id fail with \<open>NotFound\<close>. An id string that
  the driver cannot cast is no id of the store: get, remove and update answer it with
  \<open>InvalidIdentifier\<close>, the failure the error taxonomy gives it.
\<close>

theorem remove_then_not_found:
  assumes d: "distinct (map task_id s)"
  shows "(cast idstr = Some oid \<longrightarrow>
           (\<forall>doc. doc \<in> set s \<and> task_id doc = oid \<longrightarrow>
              deleteTask cast idstr s = (Inr doc, deleteFirst oid s) \<and>
              set (deleteFirst oid s) = set s - {doc} \<and>
              oid \<notin> set (map task_id (deleteFirst oid s))) \<and>
           (oid \<notin> set (map task_id s) \<longrightarrow>
              getTask cast idstr s = Inl NotFound \<and>
              deleteTask cast idstr s = (Inl NotFound, s) \<and>
              (validPayload b \<longrightarrow> updateTask cast now idstr b s = (Inl NotFound, s))) \<and>
           getTask cast idstr (snd (deleteTask cast idstr s)) = Inl NotFound \<and>
           deleteTask cast idstr (snd (deleteTask cast idstr s))
             = (Inl NotFound, snd (deleteTask cast idstr s)) \<and>
           (validPayload b \<longrightarrow>
              updateTask cast now idstr b (snd (deleteTask cast idstr s))
                = (Inl NotFound, snd (deleteTask cast idstr s)))) \<and>
         (cast idstr = None \<longrightarrow>
            getTask cast idstr s = Inl InvalidIdentifier \<and>
            deleteTask cast idstr s = (Inl InvalidIdentifier, s) \<and>
            (validPayload b \<longrightarrow> updateTask cast now idstr b s = (Inl InvalidIdentifier, s)))"
proof (rule conjI; rule impI)
  assume c: "cast idstr = Some oid"
  show "(\<forall>doc. doc \<in> set s \<and> task_id doc = oid \<longrightarrow>
              deleteTask cast idstr s = (Inr doc, deleteFirst oid s) \<and>
              set (deleteFirst oid s) = set s - {doc} \<and>
              oid \<notin> set (map task_id (deleteFirst oid s))) \<and>
           (oid \<notin> set (map task_id s) \<longrightarrow>
              getTask cast idstr s = Inl NotFound \<and>
              deleteTask cast idstr s = (Inl NotFound, s) \<and>
              (validPayload b \<longrightarrow> updateTask cast now idstr b s = (Inl NotFound, s))) \<and>
           getTask cast idstr (snd (deleteTask cast idstr s)) = Inl NotFound \<and>
           deleteTask cast idstr (snd (deleteTask cast idstr s))
             = (Inl NotFound, snd (deleteTask cast idstr s)) \<and>
           (validPayload b \<longrightarrow>
              updateTask cast now idstr b (snd (deleteTask cast idstr s))
                = (Inl NotFound, snd (deleteTask cast idstr s)))"
    using d c by (rule remove_cast_id [of s cast idstr oid b now])
next
  assume n: "cast idstr = None"
  have u: "updateTask cast now idstr b s = (Inl InvalidIdentifier, s)" if v: "validPayload b"
    using n validPayload_validate [OF v] validPayload_data [OF v] by (simp add: updateTask_def)
  from n u show "getTask cast idstr s = Inl InvalidIdentifier \<and>
            deleteTask cast idstr s = (Inl InvalidIdentifier, s) \<and>
            (validPayload b \<longrightarrow> updateTask cast now idstr b s = (Inl InvalidIdentifier, s))"
    by (simp add: getTask_def deleteTask_def)
qed

theorem remove_then_not_found_witness:
  "deleteTask hexCast ''00000000000000000000000a''
      [\<lparr>task_id = 10, title = ''Write spec'', description = [], priority = ''high'',
         status = ''pending'', createdAt = 1000, updatedAt = 1001\<rparr>,
       \<lparr>task_id = 11, title = ''Review'', description = [], priority = ''low'',
         status = ''completed'', createdAt = 1500, updatedAt = 1600\<rparr>]
     = (Inr \<lparr>task_id = 10, title = ''Write spec'', description = [], priority = ''high'',
         status = ''pending'', createdAt = 1000, updatedAt = 1001\<rparr>,
        [\<lparr>task_id = 11, title = ''Review'', description = [], priority = ''low'',
         status = ''completed'', createdAt = 1500, updatedAt = 1600\<rparr>]) \<and>
   getTask hexCast ''00000000000000000000000a''
      [\<lparr>task_id = 11, title = ''Review'', description = [], priority = ''low'',
         status = ''completed'', createdAt = 1500, updatedAt = 1600\<rparr>] = Inl NotFound \<and>
   deleteTask hexCast ''00000000000000000000000a''
      [\<lparr>task_id = 11, title = ''Review'', description = [], priority = ''low'',
         status = ''completed'', createdAt = 1500, updatedAt = 1600\<rparr>]
     = (Inl NotFound,
        [\<lparr>task_id = 11, title = ''Review'', description = [], priority = ''low'',
         status = ''completed'', createdAt = 1500, updatedAt = 1600\<rparr>]) \<and>
   updateTask hexCast 2000 ''00000000000000000000000a''
      \<lparr>req_title = JStr ''Write spec'', req_description = JUndefined,
        req_priority = JStr ''high'', req_status = JStr ''completed''\<rparr>
      [\<lparr>task_id = 11, title = ''Review'', description = [], priority = ''low'',
         status = ''completed'', createdAt = 1500, updatedAt = 1600\<rparr>]
     = (Inl NotFound,
        [\<lparr>task_id = 11, title = ''Review'', description = [], priority = ''low'',
         status = ''completed'', createdAt = 1500, updatedAt = 1600\<rparr>]) \<and>
   getTask hexCast ''abc''
      [\<lparr>task_id = 10, title = ''Write spec'', description = [], priority = ''high'',
         status = ''pending'', createdAt = 1000, updatedAt = 1001\<rparr>,
       \<lparr>task_id = 11, title = ''Review'', description = [], priority = ''low'',
         status = ''completed'', createdAt = 1500, updatedAt = 1600\<rparr>]
     = Inl InvalidIdentifier"
proof -
  let ?t1 = "\<lparr>task_id = 10, title = ''Write spec'', description = [], priority = ''high'',
         status = ''pending'', createdAt = 1000, updatedAt = 1001\<rparr>"
  let ?t2 = "\<lparr>task_id = 11, title = ''Review'', description = [], priority = ''low'',
         status = ''completed'', createdAt = 1500, updatedAt = 1600\<rparr>"
  let ?b = "\<lparr>req_title = JStr ''Write spec'', req_description = JUndefined,
        req_priority = JStr ''high'', req_status = JStr ''completed''\<rparr>"
  have d: "distinct (map task_id [?t1, ?t2])" by simp
  have c: "hexCast ''00000000000000000000000a'' = Some 10"
    by (simp add: hexCast_def hexDigit_def)
  have v: "validPayload ?b"
    by (simp add: validPayload_def trim_def isSpace_def includes_str_def priorities_def statuses_def)
  have p: "?t1 \<in> set [?t1, ?t2] \<and> task_id ?t1 = 10" by simp
  have r: "deleteFirst 10 [?t1, ?t2] = [?t2]" by simp
  have m: "hexCast ''abc'' = None" by (simp add: hexCast_def)
  note h = remove_then_not_found [of "[?t1, ?t2]" hexCast "''00000000000000000000000a''" 10 ?b 2000,
      OF d, THEN conjunct1, THEN mp, OF c]
  note g = remove_then_not_found [of "[?t1, ?t2]" hexCast "''abc''" 10 ?b 2000,
      OF d, THEN conjunct2, THEN mp, OF m, THEN conjunct1]
  from h p v r have "deleteTask hexCast ''00000000000000000000000a'' [?t1, ?t2] = (Inr ?t1, [?t2]) \<and>
      getTask hexCast ''00000000000000000000000a'' [?t2] = Inl NotFound \<and>
      deleteTask hexCast ''00000000000000000000000a'' [?t2] = (Inl NotFound, [?t2]) \<and>
      updateTask hexCast 2000 ''00000000000000000000000a'' ?b [?t2] = (Inl NotFound, [?t2])"
    by (metis snd_conv)
  with g show ?thesis by simp
qed

section \<open>Listing\<close>

text \<open>
  Claim C5, as the code has it. The store's ordering returns the documents it is given,
  in some order. Whenever a list call returns, the sequence holds exactly the records
  (each as often as the collection holds it) that satisfy the conjunction of the
  supplied equality filters, where a filter that is absent, the empty string or "all"
  imposes no constraint; the count is the length of the sequence. With
  \<open>status = "completed"\<close> every record returned has that status; with \<open>status = "all"\<close>
  and no priority filter the sequence holds all records.
\<close>

theorem list_filters:
  assumes perm: "\<And>f d xs ys. srt f d xs = Inr ys \<Longrightarrow> mset ys = mset xs"
    and res: "listTasks srt q s = Inr (tasks, n)"
  shows "mset tasks =
           filter_mset
             (\<lambda>doc. (q_status q = None \<or> q_status q = Some [] \<or> q_status q = Some ''all'' \<or>
                      q_status q = Some (status doc)) \<and>
                    (q_priority q = None \<or> q_priority q = Some [] \<or>
                      q_priority q = Some ''all'' \<or> q_priority q = Some (priority doc)))
             (mset s) \<and>
         n = length tasks \<and>
         (q_status q = Some ''completed'' \<longrightarrow> (\<forall>doc \<in> set tasks. status doc = ''completed'')) \<and>
         (q_status q = Some ''all'' \<and> q_priority q = None \<longrightarrow> mset tasks = mset s)"
proof -
  let ?P = "matches (filterValue (q_status q)) (filterValue (q_priority q))"
  from res have srt: "srt (sortField (q_sortBy q)) (sortDirection (q_order q)) (filter ?P s) = Inr tasks"
    and n: "n = length tasks"
    by (auto simp: listTasks_def Let_def split: sum.splits)
  from perm [OF srt] have m: "mset tasks = filter_mset ?P (mset s)" by simp
  then have m': "mset tasks =
           filter_mset
             (\<lambda>doc. (q_status q = None \<or> q_status q = Some [] \<or> q_status q = Some ''all'' \<or>
                      q_status q = Some (status doc)) \<and>
                    (q_priority q = None \<or> q_priority q = Some [] \<or>
                      q_priority q = Some ''all'' \<or> q_priority q = Some (priority doc)))
             (mset s)"
    by (simp add: matches_iff [abs_def])
  have c: "\<forall>doc \<in> set tasks. status doc = ''completed''" if "q_status q = Some ''completed''"
  proof
    fix doc assume "doc \<in> set tasks"
    then have "doc \<in># mset tasks" by simp
    then have "?P doc" unfolding m by simp
    with that show "status doc = ''completed''" by (simp add: matches_iff)
  qed
  have a: "mset tasks = mset s" if "q_status q = Some ''all'' \<and> q_priority q = None"
    using that m' by simp
  show ?thesis
  proof (intro conjI impI)
    show "n = length tasks" by (rule n)
    show "mset tasks =
           filter_mset
             (\<lambda>doc. (q_status q = None \<or> q_status q = Some [] \<or> q_status q = Some ''all'' \<or>
                      q_status q = Some (status doc)) \<and>
                    (q_priority q = None \<or> q_priority q = Some [] \<or>
                      q_priority q = Some ''all'' \<or> q_priority q = Some (priority doc)))
             (mset s)" by (rule m')
    show "\<forall>doc \<in> set tasks. status doc = ''completed''" if "q_status q = Some ''completed''"
      using that by (rule c)
    show "mset tasks = mset s" if "q_status q = Some ''all'' \<and> q_priority q = None"
      using that by (rule a)
  qed
qed

theorem list_filters_witness:
  "listTasks fieldSort
      \<lparr>q_status = Some ''completed'', q_priority = Some ''all'', q_sortBy = None, q_order = None\<rparr>
      [\<lparr>task_id = 10, title = ''Write spec'', description = [], priority = ''high'',
         status = ''pending'', createdAt = 1000, updatedAt = 1001\<rparr>,
       \<lparr>task_id = 11, title = ''Review'', description = [], priority = ''low'',
         status = ''completed'', createdAt = 1500, updatedAt = 1600\<rparr>]
     = Inr ([\<lparr>task_id = 11, title = ''Review'', description = [], priority = ''low'',
         status = ''completed'', createdAt = 1500, updatedAt = 1600\<rparr>], 1) \<and>
   mset [\<lparr>task_id = 11, title = ''Review'', description = [], priority = ''low'',
         status = ''completed'', createdAt = 1500, updatedAt = 1600\<rparr>]
     = filter_mset (\<lambda>doc. status doc = ''completed'')
        (mset [\<lparr>task_id = 10, title = ''Write spec'', description = [], priority = ''high'',
                 status = ''pending'', createdAt = 1000, updatedAt = 1001\<rparr>,
               \<lparr>task_id = 11, title = ''Review'', description = [], priority = ''low'',
                 status = ''completed'', createdAt = 1500, updatedAt = 1600\<rparr>])"
proof -
  let ?t1 = "\<lparr>task_id = 10, title = ''Write spec'', description = [], priority = ''high'',
         status = ''pending'', createdAt = 1000, updatedAt = 1001\<rparr>"
  let ?t2 = "\<lparr>task_id = 11, title = ''Review'', description = [], priority = ''low'',
         status = ''completed'', createdAt = 1500, updatedAt = 1600\<rparr>"
  let ?q = "\<lparr>q_status = Some ''completed'', q_priority = Some ''all'', q_sortBy = None,
         q_order = None\<rparr>"
  have r: "listTasks fieldSort ?q [?t1, ?t2] = Inr ([?t2], 1)"
    by code_simp
  from list_filters [of fieldSort ?q "[?t1, ?t2]" "[?t2]" 1, OF fieldSort_perm r] r
  show ?thesis by simp
qed

text \<open>
  The claim as written lets only an absent filter and the value "all" impose no
  constraint. A status supplied as the empty string imposes none either: the list holds
  a record whose status is not the empty string.
\<close>

theorem list_filters_counterexample:
  "listTasks fieldSort
      \<lparr>q_status = Some '''', q_priority = None, q_sortBy = None, q_order = None\<rparr>
      [\<lparr>task_id = 10, title = ''Write spec'', description = [], priority = ''high'',
         status = ''pending'', createdAt = 1000, updatedAt = 1001\<rparr>]
     = Inr ([\<lparr>task_id = 10, title = ''Write spec'', description = [], priority = ''high'',
         status = ''pending'', createdAt = 1000, updatedAt = 1001\<rparr>], 1) \<and>
   status \<lparr>task_id = 10, title = ''Write spec'', description = [], priority = ''high'',
         status = ''pending'', createdAt = 1000, updatedAt = 1001\<rparr> \<noteq> ''''"
  by code_simp

text \<open>
  Claim C10. The direction handed to the store is ascending (1) only for the order
  \<open>"asc"\<close>. For every other order, absent or supplied, it is descending (-1), and the
  list call answers exactly as it does for \<open>"desc"\<close>: the value is not rejected.
\<close>

theorem order_direction:
  "sortDirection (Some ''asc'') = 1 \<and>
   (\<forall>v. v \<noteq> Some ''asc'' \<longrightarrow>
      sortDirection v = - 1 \<and>
      listTasks srt (q\<lparr>q_order := v\<rparr>) s = listTasks srt (q\<lparr>q_order := Some ''desc''\<rparr>) s)"
proof -
  have d: "sortDirection v = - 1" if "v \<noteq> Some ''asc''" for v
    using that by (cases v) (auto simp: sortDirection_def)
  have e: "sortDirection (Some ''desc'') = - 1" by (simp add: sortDirection_def)
  have l: "listTasks srt (q\<lparr>q_order := v\<rparr>) s = listTasks srt (q\<lparr>q_order := Some ''desc''\<rparr>) s"
    if "v \<noteq> Some ''asc''" for v
  proof -
    have "sortDirection v = sortDirection (Some ''desc'')" using d [OF that] e by simp
    then show ?thesis by (simp add: listTasks_def)
  qed
  have a: "sortDirection (Some ''asc'') = 1" by (simp add: sortDirection_def)
  from a d l show ?thesis by blast
qed

theorem order_direction_witness:
  "sortDirection (Some ''ASC'') = - 1 \<and>
   listTasks fieldSort
      \<lparr>q_status = None, q_priority = None, q_sortBy = Some ''createdAt'', q_order = Some ''ASC''\<rparr>
      [\<lparr>task_id = 10, title = ''Write spec'', description = [], priority = ''high'',
         status = ''pending'', createdAt = 1000, updatedAt = 1001\<rparr>,
       \<lparr>task_id = 11, title = ''Review'', description = [], priority = ''low'',
         status = ''completed'', createdAt = 1500, updatedAt = 1600\<rparr>]
     = Inr ([\<lparr>task_id = 11, title = ''Review'', description = [], priority = ''low'',
               status = ''completed'', createdAt = 1500, updatedAt = 1600\<rparr>,
             \<lparr>task_id = 10, title = ''Write spec'', description = [], priority = ''high'',
               status = ''pending'', createdAt = 1000, updatedAt = 1001\<rparr>], 2)"
proof -
  let ?t1 = "\<lparr>task_id = 10, title = ''Write spec'', description = [], priority = ''high'',
         status = ''pending'', createdAt = 1000, updatedAt = 1001\<rparr>"
  let ?t2 = "\<lparr>task_id = 11, title = ''Review'', description = [], priority = ''low'',
         status = ''completed'', createdAt = 1500, updatedAt = 1600\<rparr>"
  let ?q = "\<lparr>q_status = None, q_priority = None, q_sortBy = Some ''createdAt'',
         q_order = None\<rparr>"
  have n: "Some ''ASC'' \<noteq> Some ''asc''" by simp
  have r: "listTasks fieldSort (?q\<lparr>q_order := Some ''desc''\<rparr>) [?t1, ?t2] = Inr ([?t2, ?t1], 2)"
    by code_simp
  note h = order_direction [of fieldSort ?q "[?t1, ?t2]", THEN conjunct2, THEN spec,
      of "Some ''ASC''", THEN mp, OF n]
  from h r show ?thesis by simp
qed

section \<open>Statistics of the collection\<close>

text \<open>
  Claim C4. For every collection whose records have their status and priority in the
  enumerations, the total of the statistics is the number of records, it is the sum of
  the completed, pending and in-progress counts, and the values of the priority mapping
  add up to it.
\<close>

theorem stats_totals:
  assumes "\<forall>doc \<in> set s. status doc \<in> set statuses \<and> priority doc \<in> set priorities"
  shows "st_total (getStats s) = length s \<and>
         st_total (getStats s) =
           st_completed (getStats s) + st_pending (getStats s) + st_inProgress (getStats s) \<and>
         sum_list (map snd (st_priority (getStats s))) = st_total (getStats s)"
proof -
  from assms have st: "\<forall>doc \<in> set s. status doc \<in> set statuses" by simp
  from assms enum_not_proto have "''__proto__'' \<notin> set (map priority s)" by auto
  then have r: "reducePriority (groupCount (map priority s)) = groupCount (map priority s)"
    by (rule reducePriority_groupCount)
  have "sum_list (map snd (groupCount (map priority s))) = length s"
    by (simp add: groupCount_def sum_foldl_groupStep)
  with r status_partition [OF st] show ?thesis
    by (simp add: getStats_def countDocuments_def)
qed

theorem stats_totals_witness:
  "st_total (getStats
      [\<lparr>task_id = 10, title = ''Write spec'', description = [], priority = ''high'',
         status = ''completed'', createdAt = 1000, updatedAt = 2000\<rparr>,
       \<lparr>task_id = 11, title = ''Review'', description = [], priority = ''low'',
         status = ''in-progress'', createdAt = 1500, updatedAt = 1600\<rparr>,
       \<lparr>task_id = 12, title = ''Ship'', description = [], priority = ''high'',
         status = ''pending'', createdAt = 1700, updatedAt = 1700\<rparr>]) = 3 \<and>
   st_completed (getStats
      [\<lparr>task_id = 10, title = ''Write spec'', description = [], priority = ''high'',
         status = ''completed'', createdAt = 1000, updatedAt = 2000\<rparr>,
       \<lparr>task_id = 11, title = ''Review'', description = [], priority = ''low'',
         status = ''in-progress'', createdAt = 1500, updatedAt = 1600\<rparr>,
       \<lparr>task_id = 12, title = ''Ship'', description = [], priority = ''high'',
         status = ''pending'', createdAt = 1700, updatedAt = 1700\<rparr>]) +
   st_pending (getStats
      [\<lparr>task_id = 10, title = ''Write spec'', description = [], priority = ''high'',
         status = ''completed'', createdAt = 1000, updatedAt = 2000\<rparr>,
       \<lparr>task_id = 11, title = ''Review'', description = [], priority = ''low'',
         status = ''in-progress'', createdAt = 1500, updatedAt = 1600\<rparr>,
       \<lparr>task_id = 12, title = ''Ship'', description = [], priority = ''high'',
         status = ''pending'', createdAt = 1700, updatedAt = 1700\<rparr>]) +
   st_inProgress (getStats
      [\<lparr>task_id = 10, title = ''Write spec'', description = [], priority = ''high'',
         status = ''completed'', createdAt = 1000, updatedAt = 2000\<rparr>,
       \<lparr>task_id = 11, title = ''Review'', description = [], priority = ''low'',
         status = ''in-progress'', createdAt = 1500, updatedAt = 1600\<rparr>,
       \<lparr>task_id = 12, title = ''Ship'', description = [], priority = ''high'',
         status = ''pending'', createdAt = 1700, updatedAt = 1700\<rparr>]) = 3 \<and>
   sum_list (map snd (st_priority (getStats
      [\<lparr>task_id = 10, title = ''Write spec'', description = [], priority = ''high'',
         status = ''completed'', createdAt = 1000, updatedAt = 2000\<rparr>,
       \<lparr>task_id = 11, title = ''Review'', description = [], priority = ''low'',
         status = ''in-progress'', createdAt = 1500, updatedAt = 1600\<rparr>,
       \<lparr>task_id = 12, title = ''Ship'', description = [], priority = ''high'',
         status = ''pending'', createdAt = 1700, updatedAt = 1700\<rparr>]))) = 3"
proof -
  let ?s = "[\<lparr>task_id = 10, title = ''Write spec'', description = [], priority = ''high'',
         status = ''completed'', createdAt = 1000, updatedAt = 2000\<rparr>,
       \<lparr>task_id = 11, title = ''Review'', description = [], priority = ''low'',
         status = ''in-progress'', createdAt = 1500, updatedAt = 1600\<rparr>,
       \<lparr>task_id = 12, title = ''Ship'', description = [], priority = ''high'',
         status = ''pending'', createdAt = 1700, updatedAt = 1700\<rparr>]"
  have i: "\<forall>doc \<in> set ?s. status doc \<in> set statuses \<and> priority doc \<in> set priorities"
    by (simp add: statuses_def priorities_def)
  have l: "length ?s = 3" by simp
  from stats_totals [OF i] l show ?thesis by presburger
qed

text \<open>
  Claim C6. For every collection whose records have their priority in the enumeration,
  the priority mapping of the statistics has one entry for each priority that occurs in
  a record, holding the number of records with it, and no entry for a priority that
  occurs in none: no entry holds zero.
\<close>

theorem stats_priority_counts:
  assumes "\<forall>doc \<in> set s. priority doc \<in> set priorities"
  shows "map_of (st_priority (getStats s)) p =
           (if p \<in> priority ` set s
            then Some (length (filter (\<lambda>doc. priority doc = p) s)) else None) \<and>
         fst ` set (st_priority (getStats s)) = priority ` set s \<and>
         distinct (map fst (st_priority (getStats s))) \<and>
         0 \<notin> snd ` set (st_priority (getStats s))"
proof -
  let ?g = "groupCount (map priority s)"
  from assms enum_not_proto have "''__proto__'' \<notin> set (map priority s)" by auto
  then have r: "st_priority (getStats s) = ?g"
    by (simp add: getStats_def reducePriority_groupCount)
  have m: "map_of ?g p =
           (if p \<in> priority ` set s
            then Some (length (filter (\<lambda>doc. priority doc = p) s)) else None)" for p
    by (simp add: map_of_groupCount filter_map comp_def)
  have k: "fst ` set ?g = priority ` set s"
    by (simp add: groupCount_def keys_foldl_groupStep)
  have d: "distinct (map fst ?g)"
    using distinct_foldl_groupStep [of "[]"] by (simp add: groupCount_def)
  have z: "0 \<notin> snd ` set ?g"
  proof
    assume "0 \<in> snd ` set ?g"
    then obtain q where q: "(q, 0) \<in> set ?g" by force
    with d have "map_of ?g q = Some 0" by simp
    moreover from q k have "q \<in> priority ` set s" by force
    then obtain doc where "doc \<in> set s" "priority doc = q" by auto
    then have "filter (\<lambda>doc. priority doc = q) s \<noteq> []" by (auto simp: filter_empty_conv)
    ultimately show False using m [of q] by (auto split: if_splits)
  qed
  from r m k d z show ?thesis by simp
qed

theorem stats_priority_counts_witness:
  "map_of (st_priority (getStats
      [\<lparr>task_id = 10, title = ''Write spec'', description = [], priority = ''high'',
         status = ''completed'', createdAt = 1000, updatedAt = 2000\<rparr>,
       \<lparr>task_id = 11, title = ''Review'', description = [], priority = ''low'',
         status = ''in-progress'', createdAt = 1500, updatedAt = 1600\<rparr>,
       \<lparr>task_id = 12, title = ''Ship'', description = [], priority = ''high'',
         status = ''pending'', createdAt = 1700, updatedAt = 1700\<rparr>])) ''high'' = Some 2 \<and>
   map_of (st_priority (getStats
      [\<lparr>task_id = 10, title = ''Write spec'', description = [], priority = ''high'',
         status = ''completed'', createdAt = 1000, updatedAt = 2000\<rparr>,
       \<lparr>task_id = 11, title = ''Review'', description = [], priority = ''low'',
         status = ''in-progress'', createdAt = 1500, updatedAt = 1600\<rparr>,
       \<lparr>task_id = 12, title = ''Ship'', description = [], priority = ''high'',
         status = ''pending'', createdAt = 1700, updatedAt = 1700\<rparr>])) ''medium'' = None"
proof -
  let ?s = "[\<lparr>task_id = 10, title = ''Write spec'', description = [], priority = ''high'',
         status = ''completed'', createdAt = 1000, updatedAt = 2000\<rparr>,
       \<lparr>task_id = 11, title = ''Review'', description = [], priority = ''low'',
         status = ''in-progress'', createdAt = 1500, updatedAt = 1600\<rparr>,
       \<lparr>task_id = 12, title = ''Ship'', description = [], priority = ''high'',
         status = ''pending'', createdAt = 1700, updatedAt = 1700\<rparr>]"
  have i: "\<forall>doc \<in> set ?s. priority doc \<in> set priorities"
    by (simp add: priorities_def)
  from stats_priority_counts [OF i, of "''high''"] stats_priority_counts [OF i, of "''medium''"]
  show ?thesis by simp
qed


end
